theory Spec2Isabelle
  imports Main
begin

section \<open>Data model\<close>

text \<open>
  A databag is a string-keyed, string-valued dictionary. The local bag of a relation
  (\<open>my_app\<close>) is owned by Juju and addressed by the relation id, so the local bags are
  kept in a store from relation ids to databags; every wrapper object of the source that
  refers to the same relation reads and writes the same bag.
\<close>

type_synonym databag = "string \<rightharpoonup> string"

type_synonym bags = "int \<Rightarrow> databag"

text \<open>\<open>charm.RemoteRelation\<close>: the attributes the two relation modules read.\<close>

record relation =
  relation_id :: int
  breaking :: bool
  remote_app_name :: string
  remote_app :: databag

text \<open>\<open>charm.Status\<close> and its subclasses, as the sources construct them.\<close>

datatype status =
    ActiveStatus
  | WaitingStatus string
  | BlockedStatus string
  | MaintenanceStatus string

text \<open>
  The argument of an exception is a Python object: in these modules either a status
  or a plain string.
\<close>

datatype arg = Status status | Str string

datatype exn_class =
    Provides_IncompleteDatabag
  | Provides_RelationBreaking
  | UnsupportedExtraUserRole
  | UserNotCreated
  | Requires_IncompleteDatabag
  | MissingRelation
  | Requires_RelationBreaking
  | KeyError
  | AssertionError
  | IndexError
  | ShellError

datatype exn = Exn exn_class "arg list"

fun exn_class_of :: "exn \<Rightarrow> exn_class" where
  "exn_class_of (Exn c as) = c"

fun args :: "exn \<Rightarrow> arg list" where
  "args (Exn c as) = as"

text \<open>
  The class hierarchy of the two modules: both \<open>_IncompleteDatabag\<close> classes derive from
  \<open>KeyError\<close>, and the \<open>_RelationBreaking\<close> of \<open>database_requires\<close> derives from
  \<open>_MissingRelation\<close>.
\<close>

fun issubclass :: "exn_class \<Rightarrow> exn_class \<Rightarrow> bool" where
  "issubclass Provides_IncompleteDatabag d = (d = Provides_IncompleteDatabag \<or> d = KeyError)"
| "issubclass Requires_IncompleteDatabag d = (d = Requires_IncompleteDatabag \<or> d = KeyError)"
| "issubclass Requires_RelationBreaking d = (d = Requires_RelationBreaking \<or> d = MissingRelation)"
| "issubclass c d = (c = d)"

definition isinstance :: "exn \<Rightarrow> exn_class \<Rightarrow> bool" where
  "isinstance e c = issubclass (exn_class_of e) c"

section \<open>Strings\<close>

text \<open>\<open>str(n)\<close> for a Python int: decimal digits, with a leading minus sign below zero.\<close>

fun str_nat :: "nat \<Rightarrow> string" where
  "str_nat n =
     (if n < 10 then [char_of (48 + n)]
      else str_nat (n div 10) @ [char_of (48 + n mod 10)])"

declare str_nat.simps [simp del]

definition str_int :: "int \<Rightarrow> string" where
  "str_int i = (if i < 0 then CHR ''-'' # str_nat (nat (- i)) else str_nat (nat i))"

text \<open>The value read back from a string of decimal digits.\<close>

definition nat_of_str :: "string \<Rightarrow> nat" where
  "nat_of_str cs = foldl (\<lambda>a c. 10 * a + (of_char c - 48)) 0 cs"

text \<open>
  \<open>s.split(sep)\<close> for a one-character separator: the pieces between the occurrences
  of the separator, always at least one piece.
\<close>

fun str_split :: "char \<Rightarrow> string \<Rightarrow> string list" where
  "str_split sep [] = [[]]"
| "str_split sep (c # cs) =
     (if c = sep then [] # str_split sep cs
      else (case str_split sep cs of
              [] \<Rightarrow> [[c]]
            | w # ws \<Rightarrow> (c # w) # ws))"

text \<open>Truthiness of \<open>bag.get(key)\<close>: \<open>None\<close> and the empty string are false.\<close>

definition truthy :: "string option \<Rightarrow> bool" where
  "truthy v = (case v of None \<Rightarrow> False | Some s \<Rightarrow> s \<noteq> [])"

section \<open>Relations to application charms (\<open>database_provides\<close>)\<close>

definition provides_ENDPOINT_NAME :: string where
  "provides_ENDPOINT_NAME = ''database''"

text \<open>
  \<open>mysql_shell.Shell\<close> is an external collaborator: its two operations are parameters,
  acting on a backend state of any type. An operation either raises or returns;
  \<open>create_application_database_and_user\<close> returns the generated password.
\<close>

record 'b Shell =
  shell_username :: string
  create_application_database_and_user ::
    "string \<Rightarrow> string \<Rightarrow> 'b \<Rightarrow> (exn + string) \<times> 'b"
  shell_delete_user :: "string \<Rightarrow> 'b \<Rightarrow> exn option \<times> 'b"

text \<open>The backend calls issued through the shell, logged in the order they are made.\<close>

datatype backend_call =
    CreateUser string string
  | DeleteUser string

record 'b state =
  endpoints :: "relation list"
  my_app :: bags
  backend :: 'b
  calls :: "backend_call list"

text \<open>
  Modelled from the spec: \<open>charm.RemoteRelation.__eq__\<close> is in the \<open>charm\<close> module, which
  is missing from the sources. The reconciler tests a relation for membership in a list
  of relations of another wrapper class; a relation is identified by its relation id.
\<close>

definition relation_eq :: "relation \<Rightarrow> relation \<Rightarrow> bool" where
  "relation_eq a b = (relation_id a = relation_id b)"

definition relation_in :: "relation \<Rightarrow> relation list \<Rightarrow> bool" where
  "relation_in r rs = list_ex (relation_eq r) rs"

text \<open>\<open>_Relation._get_username\<close>\<close>

definition get_username :: "relation \<Rightarrow> string \<Rightarrow> string" where
  "get_username r database_requires_username =
     database_requires_username @ ''-'' @ str_int (relation_id r)"

text \<open>
  \<open>_RelationThatRequestedUser.__init__\<close>: the object keeps the relation and the
  requested database name.
\<close>

definition RelationThatRequestedUser :: "relation \<Rightarrow> exn + (relation \<times> string)" where
  "RelationThatRequestedUser r =
     (if breaking r then Inl (Exn Provides_RelationBreaking [])
      else
        (case remote_app r ''database'' of
           None \<Rightarrow>
             Inl (Exn Provides_IncompleteDatabag
               [Status (WaitingStatus
                  (''Waiting for '' @ remote_app_name r @ '' app on ''
                     @ provides_ENDPOINT_NAME @ '' endpoint''))])
         | Some database \<Rightarrow>
             if truthy (remote_app r ''extra-user-roles'') then
               Inl (Exn UnsupportedExtraUserRole
                 [Str (remote_app_name r @ '' app requested unsupported extra user role on ''
                         @ provides_ENDPOINT_NAME @ '' endpoint'')])
             else Inr (r, database)))"

text \<open>\<open>self.my_app[key] = value\<close>: one assignment to the local bag of a relation.\<close>

definition setitem :: "relation \<Rightarrow> string \<Rightarrow> string \<Rightarrow> 'b state \<Rightarrow> 'b state" where
  "setitem r key v s =
     s\<lparr>my_app := (my_app s)(relation_id r := (my_app s (relation_id r))(key \<mapsto> v))\<rparr>"

text \<open>
  The five assignments of \<open>create_database_and_user\<close>, in the order of the source, and the
  states that a list of assignments goes through: one state after each assignment.
\<close>

definition grant_assignments ::
  "string \<Rightarrow> string \<Rightarrow> string \<Rightarrow> string \<Rightarrow> string \<Rightarrow> (string \<times> string) list" where
  "grant_assignments database username password router_read_write_endpoint
       router_read_only_endpoint =
     [(''database'', database),
      (''username'', username),
      (''password'', password),
      (''endpoints'', router_read_write_endpoint),
      (''read-only-endpoints'', router_read_only_endpoint)]"

fun assign_trace :: "relation \<Rightarrow> (string \<times> string) list \<Rightarrow> 'b state \<Rightarrow> 'b state list" where
  "assign_trace r [] s = []"
| "assign_trace r (kv # kvs) s =
     setitem r (fst kv) (snd kv) s # assign_trace r kvs (setitem r (fst kv) (snd kv) s)"

text \<open>
  \<open>_RelationThatRequestedUser.create_database_and_user\<close>: the shell is called first; when
  it returns, the five assignments are made one after the other, and the method returns
  in the state after the last of them.
\<close>

definition create_database_and_user ::
  "string \<Rightarrow> string \<Rightarrow> 'b Shell \<Rightarrow> relation \<times> string \<Rightarrow> 'b state \<Rightarrow> exn option \<times> 'b state" where
  "create_database_and_user router_read_write_endpoint router_read_only_endpoint shell q s =
     (let r = fst q;
          database = snd q;
          username = get_username r (shell_username shell);
          s1 = s\<lparr>calls := calls s @ [CreateUser username database]\<rparr>
      in
        (case create_application_database_and_user shell username database (backend s) of
           (Inl e, b) \<Rightarrow> (Some e, s1\<lparr>backend := b\<rparr>)
         | (Inr password, b) \<Rightarrow>
             (None,
              last (s1\<lparr>backend := b\<rparr> #
                    assign_trace r
                      (grant_assignments database username password
                         router_read_write_endpoint router_read_only_endpoint)
                      (s1\<lparr>backend := b\<rparr>)))))"

text \<open>The keys of a grant, as \<open>_RelationWithCreatedUser.__init__\<close> lists them.\<close>

definition grant_keys :: "string list" where
  "grant_keys = [''database'', ''username'', ''password'', ''endpoints'', ''read-only-endpoints'']"

text \<open>\<open>_RelationWithCreatedUser.__init__\<close>\<close>

fun check_keys :: "string list \<Rightarrow> databag \<Rightarrow> exn option" where
  "check_keys [] bag = None"
| "check_keys (key # keys) bag =
     (if bag key = None then Some (Exn UserNotCreated []) else check_keys keys bag)"

definition RelationWithCreatedUser :: "relation \<Rightarrow> bags \<Rightarrow> exn + relation" where
  "RelationWithCreatedUser r local =
     (case check_keys grant_keys (local (relation_id r)) of
        Some e \<Rightarrow> Inl e
      | None \<Rightarrow> Inr r)"

text \<open>\<open>_RelationWithCreatedUser.delete_databag\<close>\<close>

definition delete_databag :: "relation \<Rightarrow> 'b state \<Rightarrow> 'b state" where
  "delete_databag r s = s\<lparr>my_app := (my_app s)(relation_id r := Map.empty)\<rparr>"

text \<open>\<open>_RelationWithCreatedUser.delete_user\<close>: the bag is cleared, then the shell is called.\<close>

definition delete_user :: "'b Shell \<Rightarrow> relation \<Rightarrow> 'b state \<Rightarrow> exn option \<times> 'b state" where
  "delete_user shell r s =
     (let s1 = delete_databag r s;
          username = get_username r (shell_username shell);
          s2 = s1\<lparr>calls := calls s1 @ [DeleteUser username]\<rparr>
      in
        (case shell_delete_user shell username (backend s2) of
           (e, b) \<Rightarrow> (e, s2\<lparr>backend := b\<rparr>)))"

text \<open>\<open>_created_users\<close>: only \<open>_UserNotCreated\<close> can be raised by the constructor.\<close>

fun created_users :: "relation list \<Rightarrow> bags \<Rightarrow> relation list" where
  "created_users [] local = []"
| "created_users (r # rs) local =
     (case RelationWithCreatedUser r local of
        Inl e \<Rightarrow> created_users rs local
      | Inr c \<Rightarrow> c # created_users rs local)"

text \<open>
  The first loop of \<open>reconcile_users\<close>: the relations whose constructor returns, in
  order. The three exceptions that the constructor can raise are caught and dropped.
\<close>

fun requested_users :: "relation list \<Rightarrow> (relation \<times> string) list" where
  "requested_users [] = []"
| "requested_users (r # rs) =
     (case RelationThatRequestedUser r of
        Inl e \<Rightarrow> requested_users rs
      | Inr q \<Rightarrow> q # requested_users rs)"

text \<open>
  The loop of \<open>reconcile_users\<close> that creates users: \<open>_created_users()\<close> is evaluated
  again at every iteration; an exception of the shell ends the pass.
\<close>

fun create_loop ::
  "string \<Rightarrow> string \<Rightarrow> 'b Shell \<Rightarrow> (relation \<times> string) list \<Rightarrow> 'b state \<Rightarrow> exn option \<times> 'b state" where
  "create_loop rw ro shell [] s = (None, s)"
| "create_loop rw ro shell (q # qs) s =
     (if \<not> relation_in (fst q) (created_users (endpoints s) (my_app s)) then
        (case create_database_and_user rw ro shell q s of
           (Some e, s') \<Rightarrow> (Some e, s')
         | (None, s') \<Rightarrow> create_loop rw ro shell qs s')
      else create_loop rw ro shell qs s)"

text \<open>
  The loop of \<open>reconcile_users\<close> that deletes users, over the list that
  \<open>_created_users()\<close> returns when the loop starts.
\<close>

fun delete_loop ::
  "'b Shell \<Rightarrow> (relation \<times> string) list \<Rightarrow> relation list \<Rightarrow> 'b state \<Rightarrow> exn option \<times> 'b state" where
  "delete_loop shell requested [] s = (None, s)"
| "delete_loop shell requested (c # cs) s =
     (if \<not> relation_in c (map fst requested) then
        (case delete_user shell c s of
           (Some e, s') \<Rightarrow> (Some e, s')
         | (None, s') \<Rightarrow> delete_loop shell requested cs s')
      else delete_loop shell requested cs s)"

text \<open>\<open>reconcile_users\<close>\<close>

definition reconcile_users ::
  "string \<Rightarrow> string \<Rightarrow> 'b Shell \<Rightarrow> 'b state \<Rightarrow> exn option \<times> 'b state" where
  "reconcile_users router_read_write_endpoint router_read_only_endpoint shell s =
     (let requested = requested_users (endpoints s)
      in
        (case create_loop router_read_write_endpoint router_read_only_endpoint shell requested s of
           (Some e, s1) \<Rightarrow> (Some e, s1)
         | (None, s1) \<Rightarrow>
             delete_loop shell requested (created_users (endpoints s1) (my_app s1)) s1))"

text \<open>\<open>delete_all_databags\<close>\<close>

definition delete_all_databags :: "'b state \<Rightarrow> 'b state" where
  "delete_all_databags s = fold delete_databag (created_users (endpoints s) (my_app s)) s"

text \<open>
  \<open>get_status\<close>. The scan keeps the requested relations and the exceptions other than
  \<open>_RelationBreaking\<close> (the constructor raises only that one and the two classes of the
  priority tuple); the report loops over the priority tuple, then over the exceptions,
  and returns \<open>exception.args[0]\<close> of the first match.
\<close>

fun status_scan :: "relation list \<Rightarrow> (relation \<times> string) list \<times> exn list" where
  "status_scan [] = ([], [])"
| "status_scan (r # rs) =
     (case RelationThatRequestedUser r of
        Inr q \<Rightarrow> (q # fst (status_scan rs), snd (status_scan rs))
      | Inl e \<Rightarrow>
          if isinstance e Provides_RelationBreaking then status_scan rs
          else (fst (status_scan rs), e # snd (status_scan rs)))"

fun report :: "exn_class list \<Rightarrow> exn list \<Rightarrow> (exn + arg) option" where
  "report [] exceptions = None"
| "report (exception_type # types) exceptions =
     (case find (\<lambda>e. isinstance e exception_type) exceptions of
        Some e \<Rightarrow>
          (case args e of
             [] \<Rightarrow> Some (Inl (Exn IndexError [Str ''tuple index out of range'']))
           | a # as \<Rightarrow> Some (Inr a))
      | None \<Rightarrow> report types exceptions)"

definition exception_reporting_priority :: "exn_class list" where
  "exception_reporting_priority = [UnsupportedExtraUserRole, Provides_IncompleteDatabag]"

definition get_status :: "relation list \<Rightarrow> exn + arg option" where
  "get_status rels =
     (case report exception_reporting_priority (snd (status_scan rels)) of
        Some (Inl e) \<Rightarrow> Inl e
      | Some (Inr a) \<Rightarrow> Inr (Some a)
      | None \<Rightarrow>
          if fst (status_scan rels) = [] then
            Inr (Some (Status (BlockedStatus (''Missing relation: '' @ provides_ENDPOINT_NAME))))
          else Inr None)"

section \<open>Relation to the MySQL charm (\<open>database_requires\<close>)\<close>

definition requires_ENDPOINT_NAME :: string where
  "requires_ENDPOINT_NAME = ''backend-database''"

record ConnectionInformation =
  host :: string
  port :: string
  username :: string
  password :: string

text \<open>\<open>bag[key]\<close>: a missing key raises \<open>KeyError\<close>.\<close>

definition getitem :: "databag \<Rightarrow> string \<Rightarrow> exn + string" where
  "getitem bag key = (case bag key of None \<Rightarrow> Inl (Exn KeyError [Str key]) | Some v \<Rightarrow> Inr v)"

text \<open>The body of the \<open>try\<close> block of \<open>ConnectionInformation.__init__\<close>.\<close>

definition read_remote :: "databag \<Rightarrow> exn + ConnectionInformation" where
  "read_remote bag =
     (case getitem bag ''endpoints'' of
        Inl e \<Rightarrow> Inl e
      | Inr v \<Rightarrow>
          (let endpoints = str_split CHR '','' v in
             if length endpoints \<noteq> 1 then Inl (Exn AssertionError [])
             else
               (let endpoint = hd endpoints in
                  (case str_split CHR '':'' endpoint of
                     [] \<Rightarrow> Inl (Exn IndexError [Str ''list index out of range''])
                   | h # rest \<Rightarrow>
                       (case rest of
                          [] \<Rightarrow> Inl (Exn IndexError [Str ''list index out of range''])
                        | p # rest' \<Rightarrow>
                            (case getitem bag ''username'' of
                               Inl e \<Rightarrow> Inl e
                             | Inr u \<Rightarrow>
                                 (case getitem bag ''password'' of
                                    Inl e \<Rightarrow> Inl e
                                  | Inr pw \<Rightarrow>
                                      Inr \<lparr>host = h, port = p, username = u, password = pw\<rparr>)))))))"

text \<open>
  \<open>ConnectionInformation.__init__\<close>, given \<open>charm.endpoints["backend-database"]\<close>,
  \<open>charm.is_leader\<close> and the local bags. The relations are remote relations by their
  type, so the second assertion of the source always holds. The leader writes its request
  before the relation is tested for breaking and before the remote bag is read.
\<close>

definition ConnectionInformation_init ::
  "relation list \<Rightarrow> bool \<Rightarrow> bags \<Rightarrow> (exn + ConnectionInformation) \<times> bags" where
  "ConnectionInformation_init relations is_leader local =
     (case relations of
        [] \<Rightarrow>
          (Inl (Exn MissingRelation
                  [Status (BlockedStatus (''Missing relation: '' @ requires_ENDPOINT_NAME))]),
           local)
      | r # rest \<Rightarrow>
          if length relations \<noteq> 1 then (Inl (Exn AssertionError []), local)
          else
            (let local' =
                   (if is_leader then
                      local(relation_id r :=
                        (local (relation_id r))
                          (''database'' \<mapsto> ''mysql_innodb_cluster_metadata'',
                           ''extra-user-roles'' \<mapsto> ''mysqlrouter''))
                    else local)
             in
               if breaking r then
                 (Inl (Exn Requires_RelationBreaking
                         [Status (BlockedStatus (''Missing relation: '' @ requires_ENDPOINT_NAME))]),
                  local')
               else
                 (case read_remote (remote_app r) of
                    Inr ci \<Rightarrow> (Inr ci, local')
                  | Inl e \<Rightarrow>
                      if isinstance e KeyError then
                        (Inl (Exn Requires_IncompleteDatabag
                                [Status (WaitingStatus
                                   (''Waiting for '' @ remote_app_name r @ '' app on ''
                                      @ requires_ENDPOINT_NAME @ '' endpoint''))]),
                         local')
                      else (Inl e, local'))))"

text \<open>
  The module-level statements of \<open>database_requires\<close>: the three module variables, or
  the exception that the \<open>except\<close> clause does not catch.
\<close>

record resolution =
  connection_info :: "ConnectionInformation option"
  relation_breaking :: bool
  status :: "arg option"

definition resolve :: "relation list \<Rightarrow> bool \<Rightarrow> bags \<Rightarrow> (exn + resolution) \<times> bags" where
  "resolve relations is_leader local =
     (case ConnectionInformation_init relations is_leader local of
        (Inr ci, local') \<Rightarrow>
          (Inr \<lparr>connection_info = Some ci, relation_breaking = False, status = None\<rparr>, local')
      | (Inl e, local') \<Rightarrow>
          if isinstance e MissingRelation \<or> isinstance e Requires_IncompleteDatabag then
            (case args e of
               [] \<Rightarrow> (Inl (Exn IndexError [Str ''tuple index out of range'']), local')
             | a # as \<Rightarrow>
                 (Inr \<lparr>connection_info = None,
                       relation_breaking = isinstance e Requires_RelationBreaking,
                       status = Some a\<rparr>,
                  local'))
          else (Inl e, local'))"

section \<open>Predicates of the properties\<close>

text \<open>
  The condition under which \<open>_RelationWithCreatedUser.__init__\<close> returns: the five keys
  of a grant are all in the local bag.
\<close>

definition complete_grant :: "databag \<Rightarrow> bool" where
  "complete_grant bag =
     (bag ''database'' \<noteq> None \<and> bag ''username'' \<noteq> None \<and> bag ''password'' \<noteq> None
      \<and> bag ''endpoints'' \<noteq> None \<and> bag ''read-only-endpoints'' \<noteq> None)"

text \<open>
  The condition under which \<open>_RelationThatRequestedUser.__init__\<close> returns: the
  relation is not breaking, the remote bag has the key \<open>database\<close> and does not ask for
  an extra user role.
\<close>

definition requests_user :: "relation \<Rightarrow> bool" where
  "requests_user r =
     (\<not> breaking r \<and> remote_app r ''database'' \<noteq> None
      \<and> \<not> truthy (remote_app r ''extra-user-roles''))"

text \<open>A local bag holds no partial grant: all five keys of a grant, or none of them.\<close>

definition no_partial_grant :: "databag \<Rightarrow> bool" where
  "no_partial_grant bag =
     (complete_grant bag \<or>
      (bag ''database'' = None \<and> bag ''username'' = None \<and> bag ''password'' = None
       \<and> bag ''endpoints'' = None \<and> bag ''read-only-endpoints'' = None))"

text \<open>The local bags before anything is written to them.\<close>

definition empty_bags :: bags where
  "empty_bags = (\<lambda>i. Map.empty)"

section \<open>The reconciliation pass\<close>

lemma check_keys_complete: "check_keys grant_keys bag = None \<longleftrightarrow> complete_grant bag"
  by (simp add: grant_keys_def complete_grant_def)

lemma created_users_filter:
  "created_users rs local = filter (\<lambda>r. complete_grant (local (relation_id r))) rs"
  by (induction rs)
     (auto simp: RelationWithCreatedUser_def check_keys_complete [symmetric] split: option.splits)

lemma RelationThatRequestedUser_Inr:
  "RelationThatRequestedUser r = Inr q \<longleftrightarrow> requests_user r \<and> q = (r, the (remote_app r ''database''))"
  by (auto simp: RelationThatRequestedUser_def requests_user_def split: option.splits)

lemma requested_users_map:
  "requested_users rs = map (\<lambda>r. (r, the (remote_app r ''database''))) (filter requests_user rs)"
proof (induction rs)
  case Nil
  show ?case by simp
next
  case (Cons r rs)
  show ?case
  proof (cases "RelationThatRequestedUser r")
    case (Inl e)
    then have "\<not> requests_user r"
      using RelationThatRequestedUser_Inr [of r] by auto
    with Inl Cons show ?thesis by simp
  next
    case (Inr q)
    then have "requests_user r" "q = (r, the (remote_app r ''database''))"
      using RelationThatRequestedUser_Inr [of r q] by auto
    with Inr Cons show ?thesis by simp
  qed
qed

lemma relation_in_iff:
  "relation_in r rs \<longleftrightarrow> relation_id r \<in> relation_id ` set rs"
  by (auto simp: relation_in_def relation_eq_def list_ex_iff)

lemma create_database_and_user_end:
  "create_database_and_user rw ro shell q s =
     (let r = fst q;
          database = snd q;
          user = get_username r (shell_username shell);
          s1 = s\<lparr>calls := calls s @ [CreateUser user database]\<rparr>
      in
        (case create_application_database_and_user shell user database (backend s) of
           (Inl e, b) \<Rightarrow> (Some e, s1\<lparr>backend := b\<rparr>)
         | (Inr pw, b) \<Rightarrow>
             (None,
              s1\<lparr>backend := b,
                 my_app := (my_app s)
                   (relation_id r :=
                      (my_app s (relation_id r))
                        (''database'' \<mapsto> database,
                         ''username'' \<mapsto> user,
                         ''password'' \<mapsto> pw,
                         ''endpoints'' \<mapsto> rw,
                         ''read-only-endpoints'' \<mapsto> ro))\<rparr>)))"
  by (simp add: create_database_and_user_def grant_assignments_def setitem_def Let_def
      split: prod.splits sum.splits)

lemma create_endpoints:
  "create_database_and_user rw ro sh q s = (e, s') \<Longrightarrow> endpoints s' = endpoints s"
  by (auto simp: create_database_and_user_end Let_def split: prod.splits sum.splits)

lemma create_bags:
  "create_database_and_user rw ro sh q s = (None, s') \<Longrightarrow>
     complete_grant (my_app s' (relation_id (fst q))) \<and>
     (\<forall>i. i \<noteq> relation_id (fst q) \<longrightarrow> my_app s' i = my_app s i)"
  by (auto simp: create_database_and_user_end Let_def complete_grant_def split: prod.splits sum.splits)

lemma complete_in_created:
  "relation_id r \<in> relation_id ` set rs \<Longrightarrow>
     relation_in r (created_users rs local) \<longleftrightarrow> complete_grant (local (relation_id r))"
  by (auto simp: relation_in_iff created_users_filter)

lemma create_loop_endpoints:
  "create_loop rw ro sh qs s = (e, s') \<Longrightarrow> endpoints s' = endpoints s"
proof (induction qs arbitrary: s)
  case Nil
  then show ?case by simp
next
  case (Cons q qs)
  show ?case
  proof (cases "relation_in (fst q) (created_users (endpoints s) (my_app s))")
    case True
    with Cons show ?thesis by simp
  next
    case False
    obtain e1 s1 where c: "create_database_and_user rw ro sh q s = (e1, s1)"
      by (cases "create_database_and_user rw ro sh q s")
    then have ep: "endpoints s1 = endpoints s" by (rule create_endpoints)
    show ?thesis
    proof (cases e1)
      case None
      with Cons.prems False c have "create_loop rw ro sh qs s1 = (e, s')" by simp
      then show ?thesis using Cons.IH ep by simp
    next
      case (Some x)
      with Cons.prems False c have "s' = s1" by simp
      with ep show ?thesis by simp
    qed
  qed
qed

lemma create_loop_bags:
  assumes "create_loop rw ro sh qs s = (None, s')"
    and "\<forall>q\<in>set qs. relation_id (fst q) \<in> relation_id ` set (endpoints s)"
  shows "(\<forall>q\<in>set qs. complete_grant (my_app s' (relation_id (fst q)))) \<and>
         (\<forall>i. my_app s' i = my_app s i \<or>
              (i \<in> (\<lambda>q. relation_id (fst q)) ` set qs \<and> \<not> complete_grant (my_app s i)
               \<and> complete_grant (my_app s' i)))"
  using assms
proof (induction qs arbitrary: s)
  case Nil
  then show ?case by simp
next
  case (Cons q qs)
  let ?i = "relation_id (fst q)"
  have mem: "?i \<in> relation_id ` set (endpoints s)" using Cons.prems(2) by simp
  show ?case
  proof (cases "complete_grant (my_app s ?i)")
    case True
    then have "relation_in (fst q) (created_users (endpoints s) (my_app s))"
      using complete_in_created [OF mem] by simp
    then have run: "create_loop rw ro sh qs s = (None, s')" using Cons.prems(1) by simp
    have ih: "(\<forall>q\<in>set qs. complete_grant (my_app s' (relation_id (fst q)))) \<and>
         (\<forall>i. my_app s' i = my_app s i \<or>
              (i \<in> (\<lambda>q. relation_id (fst q)) ` set qs \<and> \<not> complete_grant (my_app s i)
               \<and> complete_grant (my_app s' i)))"
      using Cons.IH [OF run] Cons.prems(2) by simp
    then have "complete_grant (my_app s' ?i)" using True by metis
    with ih show ?thesis by auto
  next
    case False
    then have nin: "\<not> relation_in (fst q) (created_users (endpoints s) (my_app s))"
      using complete_in_created [OF mem] by simp
    obtain e1 s1 where c: "create_database_and_user rw ro sh q s = (e1, s1)"
      by (cases "create_database_and_user rw ro sh q s")
    have e1: "e1 = None" using Cons.prems(1) nin c by (cases e1) auto
    have run: "create_loop rw ro sh qs s1 = (None, s')" using Cons.prems(1) nin c e1 by simp
    have ep: "endpoints s1 = endpoints s" using c by (rule create_endpoints)
    have cb: "complete_grant (my_app s1 ?i)" "\<And>i. i \<noteq> ?i \<Longrightarrow> my_app s1 i = my_app s i"
      using create_bags [of rw ro sh q s s1] c e1 by auto
    have ih: "(\<forall>q\<in>set qs. complete_grant (my_app s' (relation_id (fst q)))) \<and>
         (\<forall>i. my_app s' i = my_app s1 i \<or>
              (i \<in> (\<lambda>q. relation_id (fst q)) ` set qs \<and> \<not> complete_grant (my_app s1 i)
               \<and> complete_grant (my_app s' i)))"
      using Cons.IH [OF run] Cons.prems(2) ep by simp
    have here: "complete_grant (my_app s' ?i)" using ih cb(1) by metis
    have "my_app s' i = my_app s i \<or>
              (i \<in> (\<lambda>q. relation_id (fst q)) ` set (q # qs) \<and> \<not> complete_grant (my_app s i)
               \<and> complete_grant (my_app s' i))" for i
    proof (cases "i = ?i")
      case True
      with here False show ?thesis by simp
    next
      case neq: False
      then have same: "my_app s1 i = my_app s i" using cb(2) by simp
      have "my_app s' i = my_app s1 i \<or>
              (i \<in> (\<lambda>q. relation_id (fst q)) ` set qs \<and> \<not> complete_grant (my_app s1 i)
               \<and> complete_grant (my_app s' i))"
        using ih by blast
      with same show ?thesis by auto
    qed
    with ih here show ?thesis by simp
  qed
qed

lemma delete_user_state:
  "delete_user sh c s = (e, s') \<Longrightarrow>
     endpoints s' = endpoints s \<and> my_app s' = (my_app s)(relation_id c := Map.empty)"
  by (auto simp: delete_user_def delete_databag_def Let_def split: prod.splits)

lemma delete_loop_state:
  "delete_loop sh req cs s = (None, s') \<Longrightarrow>
     endpoints s' = endpoints s \<and>
     (\<forall>i. my_app s' i =
        (if i \<in> relation_id ` set cs \<and> i \<notin> (\<lambda>q. relation_id (fst q)) ` set req
         then Map.empty else my_app s i))"
proof (induction cs arbitrary: s)
  case Nil
  then show ?case by simp
next
  case (Cons c cs)
  show ?case
  proof (cases "relation_in c (map fst req)")
    case True
    then have run: "delete_loop sh req cs s = (None, s')" using Cons.prems by simp
    have "relation_id c \<in> (\<lambda>q. relation_id (fst q)) ` set req"
      using True by (auto simp: relation_in_iff)
    then show ?thesis using Cons.IH [OF run] by auto
  next
    case False
    obtain e1 s1 where d: "delete_user sh c s = (e1, s1)"
      by (cases "delete_user sh c s")
    have e1: "e1 = None" using Cons.prems False d by (cases e1) auto
    have run: "delete_loop sh req cs s1 = (None, s')" using Cons.prems False d e1 by simp
    have nreq: "relation_id c \<notin> (\<lambda>q. relation_id (fst q)) ` set req"
      using False by (auto simp: relation_in_iff)
    have st: "endpoints s1 = endpoints s" "my_app s1 = (my_app s)(relation_id c := Map.empty)"
      using delete_user_state [OF d] by auto
    show ?thesis using Cons.IH [OF run] st nreq by auto
  qed
qed

lemma requested_ids:
  "(\<lambda>q. relation_id (fst q)) ` set (requested_users rs) = relation_id ` {r \<in> set rs. requests_user r}"
  by (auto simp: requested_users_map image_iff)

lemma reconcile_users_post:
  assumes "reconcile_users rw ro sh s = (None, s')"
  shows "endpoints s' = endpoints s"
    and "\<And>r. r \<in> set (endpoints s) \<Longrightarrow>
           complete_grant (my_app s' (relation_id r)) \<longleftrightarrow>
           relation_id r \<in> relation_id ` {r \<in> set (endpoints s). requests_user r}"
proof -
  let ?req = "requested_users (endpoints s)"
  obtain e1 s1 where c: "create_loop rw ro sh ?req s = (e1, s1)"
    by (cases "create_loop rw ro sh ?req s")
  have e1: "e1 = None" using assms c by (cases e1) (auto simp: reconcile_users_def)
  have d: "delete_loop sh ?req (created_users (endpoints s1) (my_app s1)) s1 = (None, s')"
    using assms c e1 by (simp add: reconcile_users_def)
  have ep1: "endpoints s1 = endpoints s" using c by (rule create_loop_endpoints)
  have "\<forall>q\<in>set ?req. relation_id (fst q) \<in> relation_id ` set (endpoints s)"
    by (auto simp: requested_users_map)
  then have c1: "\<forall>q\<in>set ?req. complete_grant (my_app s1 (relation_id (fst q)))"
    using create_loop_bags [of rw ro sh ?req s s1] c e1 by simp
  have dl: "endpoints s' = endpoints s1"
    "\<And>i. my_app s' i =
        (if i \<in> relation_id ` set (created_users (endpoints s1) (my_app s1))
            \<and> i \<notin> (\<lambda>q. relation_id (fst q)) ` set ?req
         then Map.empty else my_app s1 i)"
    using delete_loop_state [OF d] by auto
  show "endpoints s' = endpoints s" using dl(1) ep1 by simp
  fix r assume r: "r \<in> set (endpoints s)"
  let ?i = "relation_id r"
  show "complete_grant (my_app s' ?i) \<longleftrightarrow>
           ?i \<in> relation_id ` {r \<in> set (endpoints s). requests_user r}"
  proof (cases "?i \<in> (\<lambda>q. relation_id (fst q)) ` set ?req")
    case True
    then have "complete_grant (my_app s1 ?i)" using c1 by auto
    moreover have "my_app s' ?i = my_app s1 ?i" using dl(2) [of ?i] True by simp
    ultimately show ?thesis using True by (simp add: requested_ids)
  next
    case False
    have "\<not> complete_grant (my_app s' ?i)"
    proof (cases "complete_grant (my_app s1 ?i)")
      case True
      then have "?i \<in> relation_id ` set (created_users (endpoints s1) (my_app s1))"
        using r ep1 by (auto simp: created_users_filter)
      then have "my_app s' ?i = Map.empty" using dl(2) [of ?i] False by simp
      then show ?thesis by (simp add: complete_grant_def)
    next
      case nc: False
      have "my_app s' ?i = Map.empty \<or> my_app s' ?i = my_app s1 ?i"
        using dl(2) [of ?i] by (simp split: if_splits)
      then show ?thesis using nc by (auto simp: complete_grant_def)
    qed
    then show ?thesis using False by (simp add: requested_ids)
  qed
qed

text \<open>
  When the shell does not raise, no step of a pass raises, so the pass returns.
\<close>

lemma create_returns:
  assumes "\<forall>u d b. \<exists>p. fst (create_application_database_and_user sh u d b) = Inr p"
  shows "fst (create_database_and_user rw ro sh q s) = None"
proof -
  let ?u = "get_username (fst q) (shell_username sh)"
  obtain p where "fst (create_application_database_and_user sh ?u (snd q) (backend s)) = Inr p"
    using assms by blast
  then show ?thesis
    by (cases "create_application_database_and_user sh ?u (snd q) (backend s)")
       (simp add: create_database_and_user_end Let_def)
qed

lemma create_loop_returns:
  assumes "\<forall>u d b. \<exists>p. fst (create_application_database_and_user sh u d b) = Inr p"
  shows "fst (create_loop rw ro sh qs s) = None"
proof (induction qs arbitrary: s)
  case Nil
  show ?case by simp
next
  case (Cons q qs)
  obtain s1 where c: "create_database_and_user rw ro sh q s = (None, s1)"
    using create_returns [OF assms, of rw ro q s]
    by (cases "create_database_and_user rw ro sh q s") auto
  show ?case using Cons c by simp
qed

lemma delete_user_returns:
  assumes "\<forall>u b. fst (shell_delete_user sh u b) = None"
  shows "fst (delete_user sh c s) = None"
  using assms by (simp add: delete_user_def Let_def split: prod.splits) (metis fst_conv)

lemma delete_loop_returns:
  assumes "\<forall>u b. fst (shell_delete_user sh u b) = None"
  shows "fst (delete_loop sh req cs s) = None"
proof (induction cs arbitrary: s)
  case Nil
  show ?case by simp
next
  case (Cons c cs)
  obtain s1 where d: "delete_user sh c s = (None, s1)"
    using delete_user_returns [OF assms, of c s]
    by (cases "delete_user sh c s") auto
  show ?case using Cons d by simp
qed

lemma reconcile_users_returns:
  assumes "\<forall>u d b. \<exists>p. fst (create_application_database_and_user sh u d b) = Inr p"
    and "\<forall>u b. fst (shell_delete_user sh u b) = None"
  shows "fst (reconcile_users rw ro sh s) = None"
proof -
  let ?req = "requested_users (endpoints s)"
  obtain s1 where c: "create_loop rw ro sh ?req s = (None, s1)"
    using create_loop_returns [OF assms(1), of rw ro ?req s]
    by (cases "create_loop rw ro sh ?req s") auto
  then show ?thesis
    using delete_loop_returns [OF assms(2)] by (simp add: reconcile_users_def)
qed

text \<open>
  Claim C1. When \<open>reconcile_users\<close> returns, the relation ids whose local bag holds a
  complete grant are exactly the ids of the relations that are not breaking, have the
  key \<open>database\<close> in the remote bag and request no extra user role. The pass returns
  whenever the two operations of the shell return, so the grants are then made equal to
  the requests: missing grants are created and stale grants are deleted.
\<close>

theorem reconcile_users_fixpoint:
  "(fst (reconcile_users rw ro sh s) = None \<longrightarrow>
      relation_id ` {r \<in> set (endpoints (snd (reconcile_users rw ro sh s))).
            complete_grant (my_app (snd (reconcile_users rw ro sh s)) (relation_id r))}
         = relation_id ` {r \<in> set (endpoints s). \<not> breaking r
            \<and> remote_app r ''database'' \<noteq> None
            \<and> \<not> truthy (remote_app r ''extra-user-roles'')})
   \<and> ((\<forall>u d b. \<exists>p. fst (create_application_database_and_user sh u d b) = Inr p)
        \<and> (\<forall>u b. fst (shell_delete_user sh u b) = None) \<longrightarrow>
      fst (reconcile_users rw ro sh s) = None)"
proof (intro conjI impI)
  assume ret: "fst (reconcile_users rw ro sh s) = None"
  obtain s' where run: "reconcile_users rw ro sh s = (None, s')"
    using ret by (cases "reconcile_users rw ro sh s") auto
  have "relation_id ` {r \<in> set (endpoints s'). complete_grant (my_app s' (relation_id r))}
        = relation_id ` {r \<in> set (endpoints s). requests_user r}"
    using reconcile_users_post [OF run] by auto
  then show "relation_id ` {r \<in> set (endpoints (snd (reconcile_users rw ro sh s))).
            complete_grant (my_app (snd (reconcile_users rw ro sh s)) (relation_id r))}
         = relation_id ` {r \<in> set (endpoints s). \<not> breaking r
            \<and> remote_app r ''database'' \<noteq> None
            \<and> \<not> truthy (remote_app r ''extra-user-roles'')}"
    using run by (simp add: requests_user_def)
next
  assume "(\<forall>u d b. \<exists>p. fst (create_application_database_and_user sh u d b) = Inr p)
        \<and> (\<forall>u b. fst (shell_delete_user sh u b) = None)"
  then show "fst (reconcile_users rw ro sh s) = None"
    using reconcile_users_returns by blast
qed

theorem reconcile_users_fixpoint_witness:
  "(let sh = \<lparr>shell_username = ''router'',
               create_application_database_and_user = (\<lambda>u d b. (Inr ''secret'', Suc b)),
               shell_delete_user = (\<lambda>u b. (None, b))\<rparr>;
        s = \<lparr>endpoints =
               [\<lparr>relation_id = 1, breaking = False, remote_app_name = ''app1'',
                  remote_app = [''database'' \<mapsto> ''db1'']\<rparr>,
                \<lparr>relation_id = 2, breaking = True, remote_app_name = ''app2'',
                  remote_app = [''database'' \<mapsto> ''db2'']\<rparr>],
             my_app = (\<lambda>i. Map.empty)
               (2 := [''database'' \<mapsto> ''db2'', ''username'' \<mapsto> ''router-2'',
                      ''password'' \<mapsto> ''old'', ''endpoints'' \<mapsto> ''rw'',
                      ''read-only-endpoints'' \<mapsto> ''ro'']),
             backend = 0::nat, calls = []\<rparr>;
        t = reconcile_users ''rw'' ''ro'' sh s
    in (\<forall>u d b. \<exists>p. fst (create_application_database_and_user sh u d b) = Inr p)
       \<and> (\<forall>u b. fst (shell_delete_user sh u b) = None)
       \<and> relation_id ` {r \<in> set (endpoints s). complete_grant (my_app s (relation_id r))} = {2}
       \<and> fst t = None
       \<and> relation_id ` {r \<in> set (endpoints (snd t)).
             complete_grant (my_app (snd t) (relation_id r))} = {1})"
proof -
  let ?sh = "\<lparr>shell_username = ''router'',
               create_application_database_and_user = (\<lambda>u d b. (Inr ''secret'', Suc b)),
               shell_delete_user = (\<lambda>u b. (None, b))\<rparr> :: nat Shell"
  let ?s = "\<lparr>endpoints =
               [\<lparr>relation_id = 1, breaking = False, remote_app_name = ''app1'',
                  remote_app = [''database'' \<mapsto> ''db1'']\<rparr>,
                \<lparr>relation_id = 2, breaking = True, remote_app_name = ''app2'',
                  remote_app = [''database'' \<mapsto> ''db2'']\<rparr>],
             my_app = (\<lambda>i. Map.empty)
               (2 := [''database'' \<mapsto> ''db2'', ''username'' \<mapsto> ''router-2'',
                      ''password'' \<mapsto> ''old'', ''endpoints'' \<mapsto> ''rw'',
                      ''read-only-endpoints'' \<mapsto> ''ro'']),
             backend = 0::nat, calls = []\<rparr>"
  note inst = reconcile_users_fixpoint [of "''rw''" "''ro''" ?sh ?s]
  have h1: "\<forall>u d b. \<exists>p. fst (create_application_database_and_user ?sh u d b) = Inr p"
    by simp
  have h2: "\<forall>u b. fst (shell_delete_user ?sh u b) = None" by simp
  have ret: "fst (reconcile_users ''rw'' ''ro'' ?sh ?s) = None"
    using inst h1 h2 by blast
  have before: "relation_id ` {r \<in> set (endpoints ?s). complete_grant (my_app ?s (relation_id r))}
      = {2}"
    by (subst set_filter [symmetric]) (simp add: complete_grant_def)
  have "relation_id ` {r \<in> set (endpoints ?s). \<not> breaking r
            \<and> remote_app r ''database'' \<noteq> None
            \<and> \<not> truthy (remote_app r ''extra-user-roles'')} = {1}"
    by (subst set_filter [symmetric]) (simp add: truthy_def)
  with inst ret have after: "relation_id `
      {r \<in> set (endpoints (snd (reconcile_users ''rw'' ''ro'' ?sh ?s))).
         complete_grant (my_app (snd (reconcile_users ''rw'' ''ro'' ?sh ?s)) (relation_id r))}
      = {1}"
    by simp
  show ?thesis unfolding Let_def by (intro conjI h1 h2 before ret after)
qed

lemma create_loop_noop:
  "\<forall>q\<in>set qs. relation_in (fst q) (created_users (endpoints s) (my_app s)) \<Longrightarrow>
     create_loop rw ro sh qs s = (None, s)"
  by (induction qs) simp_all

lemma delete_loop_noop:
  "\<forall>c\<in>set cs. relation_in c (map fst req) \<Longrightarrow> delete_loop sh req cs s = (None, s)"
  by (induction cs) simp_all

text \<open>
  Claim C2. After a pass of \<open>reconcile_users\<close> that returned, a second pass on the
  unchanged relations returns the same state: the local bags are identical and the log
  of backend calls has not grown, so no user is created or deleted.
\<close>

theorem reconcile_users_idempotent:
  assumes "fst (reconcile_users rw ro sh s) = None"
  shows "reconcile_users rw ro sh (snd (reconcile_users rw ro sh s))
           = (None, snd (reconcile_users rw ro sh s))
    \<and> my_app (snd (reconcile_users rw ro sh (snd (reconcile_users rw ro sh s))))
           = my_app (snd (reconcile_users rw ro sh s))
    \<and> calls (snd (reconcile_users rw ro sh (snd (reconcile_users rw ro sh s))))
           = calls (snd (reconcile_users rw ro sh s))"
proof -
  obtain s' where run: "reconcile_users rw ro sh s = (None, s')"
    using assms by (cases "reconcile_users rw ro sh s") auto
  note post = reconcile_users_post [OF run]
  let ?req = "requested_users (endpoints s')"
  have "\<forall>q\<in>set ?req. relation_in (fst q) (created_users (endpoints s') (my_app s'))"
  proof
    fix q assume q: "q \<in> set ?req"
    then have m: "fst q \<in> set (endpoints s)" and w: "requests_user (fst q)"
      using post(1) by (auto simp: requested_users_map)
    then have "complete_grant (my_app s' (relation_id (fst q)))"
      using post(2) [OF m] by auto
    then show "relation_in (fst q) (created_users (endpoints s') (my_app s'))"
      using m post(1) by (auto simp: relation_in_iff created_users_filter)
  qed
  then have c: "create_loop rw ro sh ?req s' = (None, s')" by (rule create_loop_noop)
  have "\<forall>c\<in>set (created_users (endpoints s') (my_app s')). relation_in c (map fst ?req)"
  proof
    fix c assume "c \<in> set (created_users (endpoints s') (my_app s'))"
    then have m: "c \<in> set (endpoints s)" and g: "complete_grant (my_app s' (relation_id c))"
      using post(1) by (auto simp: created_users_filter)
    then have "relation_id c \<in> relation_id ` {r \<in> set (endpoints s). requests_user r}"
      using post(2) [OF m] by simp
    then show "relation_in c (map fst ?req)"
      using post(1) by (auto simp: relation_in_iff requested_users_map image_iff)
  qed
  then have "delete_loop sh ?req (created_users (endpoints s') (my_app s')) s' = (None, s')"
    by (rule delete_loop_noop)
  with c have "reconcile_users rw ro sh s' = (None, s')" by (simp add: reconcile_users_def)
  with run show ?thesis by simp
qed

theorem reconcile_users_idempotent_witness:
  "(let sh = \<lparr>shell_username = ''router'',
               create_application_database_and_user = (\<lambda>u d b. (Inr ''secret'', Suc b)),
               shell_delete_user = (\<lambda>u b. (None, b))\<rparr>;
        s = \<lparr>endpoints =
               [\<lparr>relation_id = 1, breaking = False, remote_app_name = ''app1'',
                  remote_app = [''database'' \<mapsto> ''db1'']\<rparr>,
                \<lparr>relation_id = 2, breaking = True, remote_app_name = ''app2'',
                  remote_app = [''database'' \<mapsto> ''db2'']\<rparr>],
             my_app = (\<lambda>i. Map.empty)
               (2 := [''database'' \<mapsto> ''db2'', ''username'' \<mapsto> ''router-2'',
                      ''password'' \<mapsto> ''old'', ''endpoints'' \<mapsto> ''rw'',
                      ''read-only-endpoints'' \<mapsto> ''ro'']),
             backend = 0::nat, calls = []\<rparr>;
        t = reconcile_users ''rw'' ''ro'' sh s
    in fst t = None
       \<and> calls (snd t) = [CreateUser ''router-1'' ''db1'', DeleteUser ''router-2'']
       \<and> reconcile_users ''rw'' ''ro'' sh (snd t) = (None, snd t))"
proof -
  let ?sh = "\<lparr>shell_username = ''router'',
               create_application_database_and_user = (\<lambda>u d b. (Inr ''secret'', Suc b)),
               shell_delete_user = (\<lambda>u b. (None, b))\<rparr> :: nat Shell"
  let ?s = "\<lparr>endpoints =
               [\<lparr>relation_id = 1, breaking = False, remote_app_name = ''app1'',
                  remote_app = [''database'' \<mapsto> ''db1'']\<rparr>,
                \<lparr>relation_id = 2, breaking = True, remote_app_name = ''app2'',
                  remote_app = [''database'' \<mapsto> ''db2'']\<rparr>],
             my_app = (\<lambda>i. Map.empty)
               (2 := [''database'' \<mapsto> ''db2'', ''username'' \<mapsto> ''router-2'',
                      ''password'' \<mapsto> ''old'', ''endpoints'' \<mapsto> ''rw'',
                      ''read-only-endpoints'' \<mapsto> ''ro'']),
             backend = 0::nat, calls = []\<rparr>"
  have h: "fst (reconcile_users ''rw'' ''ro'' ?sh ?s) = None" by code_simp
  have c: "calls (snd (reconcile_users ''rw'' ''ro'' ?sh ?s))
             = [CreateUser ''router-1'' ''db1'', DeleteUser ''router-2'']"
    by code_simp
  from reconcile_users_idempotent [OF h] have
    "reconcile_users ''rw'' ''ro'' ?sh (snd (reconcile_users ''rw'' ''ro'' ?sh ?s))
       = (None, snd (reconcile_users ''rw'' ''ro'' ?sh ?s))"
    by (rule conjunct1)
  with h c show ?thesis by (simp only: Let_def)
qed

section \<open>Decimal strings and splitting\<close>

lemma nat_of_str_snoc: "nat_of_str (cs @ [c]) = 10 * nat_of_str cs + (of_char c - 48)"
  by (simp add: nat_of_str_def)

lemma nat_of_str_nat: "nat_of_str (str_nat n) = n"
proof (induction n rule: str_nat.induct)
  case (1 n)
  show ?case
  proof (cases "n < 10")
    case True
    then show ?thesis by (simp add: str_nat.simps [of n] nat_of_str_def)
  next
    case False
    then have "nat_of_str (str_nat n) = 10 * nat_of_str (str_nat (n div 10)) + (of_char (char_of (48 + n mod 10)) - 48)"
      by (simp add: str_nat.simps [of n] nat_of_str_snoc)
    also have "\<dots> = 10 * (n div 10) + n mod 10"
      using 1 False by simp
    finally show ?thesis by simp
  qed
qed

lemma str_nat_inj: "str_nat m = str_nat n \<Longrightarrow> m = n"
  by (metis nat_of_str_nat)

lemma digit_not_dash: "d < 10 \<Longrightarrow> char_of (48 + d) \<noteq> CHR ''-''" for d :: nat
proof
  assume d: "d < 10" and "char_of (48 + d) = CHR ''-''"
  then have "(of_char (char_of (48 + d)) :: nat) = of_char CHR ''-''" by simp
  with d show False by simp
qed

lemma str_nat_no_dash: "CHR ''-'' \<notin> set (str_nat n)"
proof (induction n rule: str_nat.induct)
  case (1 n)
  show ?case
  proof (cases "n < 10")
    case True
    then show ?thesis using digit_not_dash [of n] by (simp add: str_nat.simps [of n])
  next
    case False
    then show ?thesis
      using 1 digit_not_dash [of "n mod 10"] by (simp add: str_nat.simps [of n])
  qed
qed

lemma str_nat_nonempty: "str_nat n \<noteq> []"
  by (simp add: str_nat.simps [of n])

lemma str_int_inj: "str_int i = str_int j \<Longrightarrow> i = j"
proof -
  assume eq: "str_int i = str_int j"
  have hd_nonneg: "hd (str_int k) \<noteq> CHR ''-''" if "0 \<le> k" for k
    using that str_nat_no_dash [of "nat k"] str_nat_nonempty [of "nat k"]
    by (cases "str_nat (nat k)") (auto simp: str_int_def)
  have hd_neg: "hd (str_int k) = CHR ''-''" if "k < 0" for k
    using that by (simp add: str_int_def)
  show "i = j"
  proof (cases "i < 0")
    case True
    then have "j < 0" using eq hd_neg [of i] hd_nonneg [of j] by force
    with True eq have "nat (- i) = nat (- j)" by (auto simp: str_int_def dest: str_nat_inj)
    with True \<open>j < 0\<close> show ?thesis by simp
  next
    case False
    then have "\<not> j < 0" using eq hd_neg [of j] hd_nonneg [of i] by force
    with False eq have "nat i = nat j" by (auto simp: str_int_def dest: str_nat_inj)
    with False \<open>\<not> j < 0\<close> show ?thesis by simp
  qed
qed

lemma get_username_inj:
  "get_username a u = get_username b u \<Longrightarrow> relation_id a = relation_id b"
  by (simp add: get_username_def str_int_inj)

lemma str_split_nonempty: "str_split sep s \<noteq> []"
  by (induction s) (auto split: list.splits)

lemma str_split_none: "sep \<notin> set s \<Longrightarrow> str_split sep s = [s]"
  by (induction s) auto

lemma str_split_some: "sep \<in> set s \<Longrightarrow> 2 \<le> length (str_split sep s)"
proof (induction s)
  case Nil
  then show ?case by simp
next
  case (Cons c cs)
  show ?case
  proof (cases "c = sep")
    case True
    then show ?thesis using str_split_nonempty [of sep cs]
      by (cases "str_split sep cs") auto
  next
    case False
    with Cons show ?thesis by (auto split: list.splits)
  qed
qed

lemma dash_suffix_eq:
  assumes "u @ CHR ''-'' # d = v @ CHR ''-'' # d'"
    and "CHR ''-'' \<notin> set d" and "CHR ''-'' \<notin> set d'"
  shows "d = d'"
proof -
  from assms(1) obtain us where
    "(u = v @ us \<and> us @ CHR ''-'' # d = CHR ''-'' # d') \<or>
     (u @ us = v \<and> CHR ''-'' # d = us @ CHR ''-'' # d')"
    by (auto simp: append_eq_append_conv2)
  then show ?thesis
  proof
    assume a: "u = v @ us \<and> us @ CHR ''-'' # d = CHR ''-'' # d'"
    show ?thesis
    proof (cases us)
      case Nil
      with a show ?thesis by simp
    next
      case (Cons x xs)
      with a have "d' = xs @ CHR ''-'' # d" by simp
      with assms(3) show ?thesis by simp
    qed
  next
    assume a: "u @ us = v \<and> CHR ''-'' # d = us @ CHR ''-'' # d'"
    show ?thesis
    proof (cases us)
      case Nil
      with a show ?thesis by simp
    next
      case (Cons x xs)
      with a have "d = xs @ CHR ''-'' # d'" by simp
      with assms(2) show ?thesis by simp
    qed
  qed
qed

lemma get_username_inj_any:
  assumes "0 \<le> relation_id a" "0 \<le> relation_id b"
    and "get_username a u = get_username b v"
  shows "relation_id a = relation_id b"
proof -
  have "str_nat (nat (relation_id a)) = str_nat (nat (relation_id b))"
    using assms dash_suffix_eq [of u "str_nat (nat (relation_id a))" v "str_nat (nat (relation_id b))"]
      str_nat_no_dash
    by (simp add: get_username_def str_int_def)
  then have "nat (relation_id a) = nat (relation_id b)" by (rule str_nat_inj)
  with assms(1,2) show ?thesis by simp
qed

section \<open>Outcomes of a pass that may be cut short\<close>

lemma create_any:
  "create_database_and_user rw ro sh q s = (e, s') \<Longrightarrow>
     my_app s' i = my_app s i \<or>
     (complete_grant (my_app s' i) \<and>
      my_app s' i ''username'' = Some (shell_username sh @ ''-'' @ str_int i))"
  by (auto simp: create_database_and_user_end Let_def complete_grant_def get_username_def
      split: prod.splits sum.splits)

lemma create_loop_any:
  "create_loop rw ro sh qs s = (e, s') \<Longrightarrow>
     my_app s' i = my_app s i \<or>
     (complete_grant (my_app s' i) \<and>
      my_app s' i ''username'' = Some (shell_username sh @ ''-'' @ str_int i))"
proof (induction qs arbitrary: s)
  case Nil
  then show ?case by simp
next
  case (Cons q qs)
  show ?case
  proof (cases "relation_in (fst q) (created_users (endpoints s) (my_app s))")
    case True
    with Cons show ?thesis by simp
  next
    case False
    obtain e1 s1 where c: "create_database_and_user rw ro sh q s = (e1, s1)"
      by (cases "create_database_and_user rw ro sh q s")
    note step = create_any [OF c, of i]
    show ?thesis
    proof (cases e1)
      case None
      with Cons.prems False c have "create_loop rw ro sh qs s1 = (e, s')" by simp
      from Cons.IH [OF this] step show ?thesis by auto
    next
      case (Some x)
      with Cons.prems False c have "s' = s1" by simp
      with step show ?thesis by simp
    qed
  qed
qed

lemma delete_loop_any:
  "delete_loop sh req cs s = (e, s') \<Longrightarrow> my_app s' i = my_app s i \<or> my_app s' i = Map.empty"
proof (induction cs arbitrary: s)
  case Nil
  then show ?case by simp
next
  case (Cons c cs)
  show ?case
  proof (cases "relation_in c (map fst req)")
    case True
    with Cons show ?thesis by simp
  next
    case False
    obtain e1 s1 where d: "delete_user sh c s = (e1, s1)"
      by (cases "delete_user sh c s")
    have step: "my_app s1 i = my_app s i \<or> my_app s1 i = Map.empty"
      using delete_user_state [OF d] by auto
    show ?thesis
    proof (cases e1)
      case None
      with Cons.prems False d have "delete_loop sh req cs s1 = (e, s')" by simp
      from Cons.IH [OF this] step show ?thesis by auto
    next
      case (Some x)
      with Cons.prems False d have "s' = s1" by simp
      with step show ?thesis by simp
    qed
  qed
qed

lemma reconcile_users_any:
  assumes "reconcile_users rw ro sh s = (e, s')"
  shows "my_app s' i = my_app s i \<or> my_app s' i = Map.empty \<or>
     (complete_grant (my_app s' i) \<and>
      my_app s' i ''username'' = Some (shell_username sh @ ''-'' @ str_int i))"
proof -
  let ?req = "requested_users (endpoints s)"
  obtain e1 s1 where c: "create_loop rw ro sh ?req s = (e1, s1)"
    by (cases "create_loop rw ro sh ?req s")
  note step = create_loop_any [OF c, of i]
  show ?thesis
  proof (cases e1)
    case None
    with assms c have "delete_loop sh ?req (created_users (endpoints s1) (my_app s1)) s1 = (e, s')"
      by (simp add: reconcile_users_def)
    from delete_loop_any [OF this, of i] step show ?thesis by auto
  next
    case (Some x)
    with assms c have "s' = s1" by (simp add: reconcile_users_def)
    with step show ?thesis by blast
  qed
qed

lemma fold_delete_databag:
  "endpoints (fold delete_databag cs s) = endpoints s \<and>
   calls (fold delete_databag cs s) = calls s \<and>
   backend (fold delete_databag cs s) = backend s \<and>
   my_app (fold delete_databag cs s) i =
     (if i \<in> relation_id ` set cs then Map.empty else my_app s i)"
  by (induction cs arbitrary: s) (auto simp: delete_databag_def)

section \<open>Usernames\<close>

text \<open>
  Claim C4. Every grant that a pass of \<open>reconcile_users\<close> writes carries the username
  made of the upstream username, a hyphen and the relation id. The derived usernames of
  two relations with different ids differ, and when the grants already present carry
  derived usernames, the usernames of all complete grants after the pass are pairwise
  distinct.
\<close>

theorem usernames_derived_and_distinct:
  "(\<forall>i. complete_grant (my_app (snd (reconcile_users rw ro sh s)) i)
        \<and> my_app (snd (reconcile_users rw ro sh s)) i \<noteq> my_app s i \<longrightarrow>
        my_app (snd (reconcile_users rw ro sh s)) i ''username''
          = Some (shell_username sh @ ''-'' @ str_int i))
   \<and> (\<forall>a b. relation_id a \<noteq> relation_id b \<longrightarrow>
         get_username a (shell_username sh) \<noteq> get_username b (shell_username sh))
   \<and> (\<forall>a b u v. 0 \<le> relation_id a \<and> 0 \<le> relation_id b
         \<and> relation_id a \<noteq> relation_id b \<longrightarrow>
         get_username a u \<noteq> get_username b v)
   \<and> ((\<forall>i. complete_grant (my_app s i) \<longrightarrow>
          my_app s i ''username'' = Some (shell_username sh @ ''-'' @ str_int i)) \<longrightarrow>
       (\<forall>i j. i \<noteq> j \<and> complete_grant (my_app (snd (reconcile_users rw ro sh s)) i)
           \<and> complete_grant (my_app (snd (reconcile_users rw ro sh s)) j) \<longrightarrow>
           my_app (snd (reconcile_users rw ro sh s)) i ''username''
             \<noteq> my_app (snd (reconcile_users rw ro sh s)) j ''username''))"
proof -
  obtain e s' where run: "reconcile_users rw ro sh s = (e, s')"
    by (cases "reconcile_users rw ro sh s")
  let ?u = "\<lambda>i. shell_username sh @ ''-'' @ str_int i"
  have any: "my_app s' i = my_app s i \<or> my_app s' i = Map.empty \<or>
     (complete_grant (my_app s' i) \<and> my_app s' i ''username'' = Some (?u i))" for i
    using reconcile_users_any [OF run] .
  have written: "my_app s' i ''username'' = Some (?u i)"
    if "complete_grant (my_app s' i)" "my_app s' i \<noteq> my_app s i" for i
    using any [of i] that by (auto simp: complete_grant_def)
  have inj: "get_username a (shell_username sh) \<noteq> get_username b (shell_username sh)"
    if "relation_id a \<noteq> relation_id b" for a b :: relation
    using that get_username_inj by blast
  have all: "my_app s' i ''username'' = Some (?u i)"
    if inv: "\<forall>i. complete_grant (my_app s i) \<longrightarrow> my_app s i ''username'' = Some (?u i)"
      and g: "complete_grant (my_app s' i)" for i
  proof (cases "my_app s' i = my_app s i")
    case True
    with inv g show ?thesis by simp
  next
    case False
    with g show ?thesis by (rule written)
  qed
  have distinct: "my_app s' i ''username'' \<noteq> my_app s' j ''username''"
    if inv: "\<forall>i. complete_grant (my_app s i) \<longrightarrow> my_app s i ''username'' = Some (?u i)"
      and "i \<noteq> j" "complete_grant (my_app s' i)" "complete_grant (my_app s' j)" for i j
    using all [OF inv] that(2-4) by (auto dest: str_int_inj)
  have "\<forall>i. complete_grant (my_app s' i) \<and> my_app s' i \<noteq> my_app s i \<longrightarrow>
        my_app s' i ''username'' = Some (?u i)"
    using written by blast
  moreover have "\<forall>a b. relation_id a \<noteq> relation_id b \<longrightarrow>
         get_username a (shell_username sh) \<noteq> get_username b (shell_username sh)"
    using inj by blast
  moreover have "\<forall>a b u v. 0 \<le> relation_id a \<and> 0 \<le> relation_id b
         \<and> relation_id a \<noteq> relation_id b \<longrightarrow>
         get_username a u \<noteq> get_username b v"
    using get_username_inj_any by blast
  moreover have "(\<forall>i. complete_grant (my_app s i) \<longrightarrow> my_app s i ''username'' = Some (?u i)) \<longrightarrow>
       (\<forall>i j. i \<noteq> j \<and> complete_grant (my_app s' i) \<and> complete_grant (my_app s' j) \<longrightarrow>
           my_app s' i ''username'' \<noteq> my_app s' j ''username'')"
    using distinct by blast
  ultimately show ?thesis using run by simp
qed

theorem usernames_derived_and_distinct_witness:
  "(let sh = \<lparr>shell_username = ''router'',
               create_application_database_and_user = (\<lambda>u d b. (Inr ''secret'', Suc b)),
               shell_delete_user = (\<lambda>u b. (None, b))\<rparr>;
        s = \<lparr>endpoints =
               [\<lparr>relation_id = 1, breaking = False, remote_app_name = ''app1'',
                  remote_app = [''database'' \<mapsto> ''db1'']\<rparr>,
                \<lparr>relation_id = 3, breaking = False, remote_app_name = ''app3'',
                  remote_app = [''database'' \<mapsto> ''db3'']\<rparr>],
             my_app = (\<lambda>i. Map.empty)
               (3 := [''database'' \<mapsto> ''db3'', ''username'' \<mapsto> ''router-3'',
                      ''password'' \<mapsto> ''old'', ''endpoints'' \<mapsto> ''rw'',
                      ''read-only-endpoints'' \<mapsto> ''ro'']),
             backend = 0::nat, calls = []\<rparr>;
        t = snd (reconcile_users ''rw'' ''ro'' sh s)
    in complete_grant (my_app t 1) \<and> my_app t 1 \<noteq> my_app s 1
       \<and> my_app t 1 ''username'' = Some ''router-1''
       \<and> complete_grant (my_app t 3)
       \<and> my_app t 1 ''username'' \<noteq> my_app t 3 ''username''
       \<and> get_username (hd (endpoints s)) ''router'' \<noteq> get_username (last (endpoints s)) ''other'')"
proof -
  let ?sh = "\<lparr>shell_username = ''router'',
               create_application_database_and_user = (\<lambda>u d b. (Inr ''secret'', Suc b)),
               shell_delete_user = (\<lambda>u b. (None, b))\<rparr> :: nat Shell"
  let ?s = "\<lparr>endpoints =
               [\<lparr>relation_id = 1, breaking = False, remote_app_name = ''app1'',
                  remote_app = [''database'' \<mapsto> ''db1'']\<rparr>,
                \<lparr>relation_id = 3, breaking = False, remote_app_name = ''app3'',
                  remote_app = [''database'' \<mapsto> ''db3'']\<rparr>],
             my_app = (\<lambda>i. Map.empty)
               (3 := [''database'' \<mapsto> ''db3'', ''username'' \<mapsto> ''router-3'',
                      ''password'' \<mapsto> ''old'', ''endpoints'' \<mapsto> ''rw'',
                      ''read-only-endpoints'' \<mapsto> ''ro'']),
             backend = 0::nat, calls = []\<rparr>"
  let ?t = "snd (reconcile_users ''rw'' ''ro'' ?sh ?s)"
  note inst = usernames_derived_and_distinct [of "''rw''" "''ro''" ?sh ?s]
  have c1: "complete_grant (my_app ?t 1)" by code_simp
  have c3: "complete_grant (my_app ?t 3)" by code_simp
  have "my_app ?s 1 ''database'' = None" by simp
  moreover have "my_app ?t 1 ''database'' \<noteq> None" by code_simp
  ultimately have n1: "my_app ?t 1 \<noteq> my_app ?s 1" by metis
  have s1: "str_int 1 = ''1''" and s3: "str_int 3 = ''3''" by code_simp+
  have u1: "my_app ?t 1 ''username'' = Some ''router-1''"
    using inst c1 n1 s1 by simp
  have inv: "\<forall>i. complete_grant (my_app ?s i) \<longrightarrow>
          my_app ?s i ''username'' = Some (shell_username ?sh @ ''-'' @ str_int i)"
    by (simp add: complete_grant_def s3)
  have neq: "my_app ?t 1 ''username'' \<noteq> my_app ?t 3 ''username''"
  proof -
    have "(1::int) \<noteq> 3 \<and> complete_grant (my_app ?t 1) \<and> complete_grant (my_app ?t 3)"
      using c1 c3 by simp
    with inst inv show ?thesis by blast
  qed
  have ids: "0 \<le> relation_id (hd (endpoints ?s)) \<and> 0 \<le> relation_id (last (endpoints ?s))
      \<and> relation_id (hd (endpoints ?s)) \<noteq> relation_id (last (endpoints ?s))"
    by simp
  have gen: "get_username (hd (endpoints ?s)) ''router''
      \<noteq> get_username (last (endpoints ?s)) ''other''"
    using inst ids by blast
  show ?thesis unfolding Let_def by (intro conjI c1 n1 u1 c3 neq gen)
qed

section \<open>Deleting grants\<close>

text \<open>
  Claim C5. \<open>delete_user\<close> clears the local bag before it calls the shell: the state
  between the two steps has the bag empty and no backend call logged, and when the
  shell raises, the exception leaves \<open>delete_user\<close> with the bag still empty.
\<close>

theorem delete_user_clears_bag_first:
  "my_app (delete_databag c s) (relation_id c) = Map.empty
   \<and> calls (delete_databag c s) = calls s
   \<and> snd (delete_user sh c s) =
       (delete_databag c s)
         \<lparr>calls := calls s @ [DeleteUser (get_username c (shell_username sh))],
          backend := snd (shell_delete_user sh (get_username c (shell_username sh)) (backend s))\<rparr>
   \<and> my_app (snd (delete_user sh c s)) (relation_id c) = Map.empty
   \<and> (fst (shell_delete_user sh (get_username c (shell_username sh)) (backend s)) = Some e \<longrightarrow>
        fst (delete_user sh c s) = Some e
        \<and> my_app (snd (delete_user sh c s)) (relation_id c) = Map.empty)"
  by (simp add: delete_user_def delete_databag_def Let_def split: prod.splits)

theorem delete_user_clears_bag_first_witness:
  "(let sh = \<lparr>shell_username = ''router'',
               create_application_database_and_user = (\<lambda>u d b. (Inr ''secret'', Suc b)),
               shell_delete_user = (\<lambda>u b. (Some (Exn ShellError []), b))\<rparr>;
        c = \<lparr>relation_id = 2, breaking = True, remote_app_name = ''app2'',
               remote_app = [''database'' \<mapsto> ''db2'']\<rparr>;
        s = \<lparr>endpoints = [c],
             my_app = (\<lambda>i. Map.empty)
               (2 := [''database'' \<mapsto> ''db2'', ''username'' \<mapsto> ''router-2'',
                      ''password'' \<mapsto> ''old'', ''endpoints'' \<mapsto> ''rw'',
                      ''read-only-endpoints'' \<mapsto> ''ro'']),
             backend = 0::nat, calls = []\<rparr>
    in fst (shell_delete_user sh (get_username c (shell_username sh)) (backend s))
         = Some (Exn ShellError [])
       \<and> fst (delete_user sh c s) = Some (Exn ShellError [])
       \<and> my_app (snd (delete_user sh c s)) (relation_id c) = Map.empty)"
proof -
  let ?sh = "\<lparr>shell_username = ''router'',
               create_application_database_and_user = (\<lambda>u d b. (Inr ''secret'', Suc b)),
               shell_delete_user = (\<lambda>u b. (Some (Exn ShellError []), b))\<rparr> :: nat Shell"
  let ?c = "\<lparr>relation_id = 2, breaking = True, remote_app_name = ''app2'',
               remote_app = [''database'' \<mapsto> ''db2'']\<rparr>"
  let ?s = "\<lparr>endpoints = [?c],
             my_app = (\<lambda>i. Map.empty)
               (2 := [''database'' \<mapsto> ''db2'', ''username'' \<mapsto> ''router-2'',
                      ''password'' \<mapsto> ''old'', ''endpoints'' \<mapsto> ''rw'',
                      ''read-only-endpoints'' \<mapsto> ''ro'']),
             backend = 0::nat, calls = []\<rparr>"
  have h: "fst (shell_delete_user ?sh (get_username ?c (shell_username ?sh)) (backend ?s))
         = Some (Exn ShellError [])"
    by simp
  from delete_user_clears_bag_first [of ?c ?s ?sh "Exn ShellError []"] h
  show ?thesis unfolding Let_def by blast
qed

text \<open>
  Claim C6. \<open>delete_all_databags\<close> empties the local bag of every relation that holds a
  complete grant, leaves every other bag as it was, and makes no backend call: the log
  of calls and the backend are unchanged.
\<close>

theorem delete_all_databags_local_only:
  "calls (delete_all_databags s) = calls s
   \<and> backend (delete_all_databags s) = backend s
   \<and> endpoints (delete_all_databags s) = endpoints s
   \<and> (\<forall>r\<in>set (endpoints s). complete_grant (my_app s (relation_id r)) \<longrightarrow>
         my_app (delete_all_databags s) (relation_id r) = Map.empty)
   \<and> (\<forall>i. my_app (delete_all_databags s) i = Map.empty
         \<or> my_app (delete_all_databags s) i = my_app s i)"
proof -
  let ?cs = "created_users (endpoints s) (my_app s)"
  note f = fold_delete_databag [of ?cs s]
  have "my_app (delete_all_databags s) (relation_id r) = Map.empty"
    if "r \<in> set (endpoints s)" "complete_grant (my_app s (relation_id r))" for r
  proof -
    have "relation_id r \<in> relation_id ` set ?cs"
      using that by (auto simp: created_users_filter)
    then show ?thesis using f [of "relation_id r"] by (simp add: delete_all_databags_def)
  qed
  moreover have "my_app (delete_all_databags s) i = Map.empty
         \<or> my_app (delete_all_databags s) i = my_app s i" for i
    using f [of i] by (simp add: delete_all_databags_def)
  ultimately show ?thesis using f by (simp add: delete_all_databags_def)
qed

theorem delete_all_databags_local_only_witness:
  "(let s = \<lparr>endpoints =
               [\<lparr>relation_id = 1, breaking = False, remote_app_name = ''app1'',
                  remote_app = [''database'' \<mapsto> ''db1'']\<rparr>,
                \<lparr>relation_id = 2, breaking = False, remote_app_name = ''app2'',
                  remote_app = [''database'' \<mapsto> ''db2'']\<rparr>],
             my_app = (\<lambda>i. Map.empty)
               (2 := [''database'' \<mapsto> ''db2'', ''username'' \<mapsto> ''router-2'',
                      ''password'' \<mapsto> ''old'', ''endpoints'' \<mapsto> ''rw'',
                      ''read-only-endpoints'' \<mapsto> ''ro'']),
             backend = 0::nat, calls = [CreateUser ''router-2'' ''db2'']\<rparr>
    in complete_grant (my_app s 2)
       \<and> my_app (delete_all_databags s) 2 = Map.empty
       \<and> calls (delete_all_databags s) = [CreateUser ''router-2'' ''db2''])"
proof -
  let ?r = "\<lparr>relation_id = 2, breaking = False, remote_app_name = ''app2'',
                  remote_app = [''database'' \<mapsto> ''db2'']\<rparr>"
  let ?s = "\<lparr>endpoints =
               [\<lparr>relation_id = 1, breaking = False, remote_app_name = ''app1'',
                  remote_app = [''database'' \<mapsto> ''db1'']\<rparr>, ?r],
             my_app = (\<lambda>i. Map.empty)
               (2 := [''database'' \<mapsto> ''db2'', ''username'' \<mapsto> ''router-2'',
                      ''password'' \<mapsto> ''old'', ''endpoints'' \<mapsto> ''rw'',
                      ''read-only-endpoints'' \<mapsto> ''ro'']),
             backend = 0::nat, calls = [CreateUser ''router-2'' ''db2'']\<rparr>"
  note inst = delete_all_databags_local_only [of ?s]
  have g: "complete_grant (my_app ?s 2)" by (simp add: complete_grant_def)
  have m: "?r \<in> set (endpoints ?s)" by simp
  have "complete_grant (my_app ?s (relation_id ?r))" using g by simp
  with inst m have "my_app (delete_all_databags ?s) (relation_id ?r) = Map.empty" by blast
  then have e: "my_app (delete_all_databags ?s) 2 = Map.empty" by simp
  have c: "calls (delete_all_databags ?s) = [CreateUser ''router-2'' ''db2'']"
    using inst by simp
  show ?thesis unfolding Let_def by (intro conjI g e c)
qed

text \<open>
  Claim C9, as the code has it. When every local bag holds all five keys of a grant or
  none, the same is true at every exit of \<open>create_database_and_user\<close>, \<open>delete_user\<close>,
  \<open>reconcile_users\<close> and \<open>delete_all_databags\<close>, whether the operation returned or was
  ended by an exception of the shell. For its caller \<open>create_database_and_user\<close> writes
  all five keys or nothing: the shell is called before the first assignment.
\<close>

theorem no_partial_grant_preserved:
  assumes "\<forall>i. no_partial_grant (my_app s i)"
  shows "(\<forall>i. no_partial_grant (my_app (snd (create_database_and_user rw ro sh q s)) i))
    \<and> (\<forall>i. no_partial_grant (my_app (snd (delete_user sh c s)) i))
    \<and> (\<forall>i. no_partial_grant (my_app (snd (reconcile_users rw ro sh s)) i))
    \<and> (\<forall>i. no_partial_grant (my_app (delete_all_databags s) i))
    \<and> (fst (create_database_and_user rw ro sh q s) = None \<longrightarrow>
         complete_grant (my_app (snd (create_database_and_user rw ro sh q s))
           (relation_id (fst q))))
    \<and> (fst (create_database_and_user rw ro sh q s) \<noteq> None \<longrightarrow>
         my_app (snd (create_database_and_user rw ro sh q s)) = my_app s)"
proof -
  have empty: "no_partial_grant Map.empty" by (simp add: no_partial_grant_def)
  have complete: "complete_grant bag \<Longrightarrow> no_partial_grant bag" for bag
    by (simp add: no_partial_grant_def)
  obtain e1 s1 where r1: "create_database_and_user rw ro sh q s = (e1, s1)"
    by (cases "create_database_and_user rw ro sh q s")
  have a: "no_partial_grant (my_app (snd (create_database_and_user rw ro sh q s)) i)" for i
    using create_any [OF r1, of i] assms complete r1 by auto
  have b: "no_partial_grant (my_app (snd (delete_user sh c s)) i)" for i
  proof -
    obtain e s' where r: "delete_user sh c s = (e, s')"
      by (cases "delete_user sh c s")
    from delete_user_state [OF r] assms empty show ?thesis using r by auto
  qed
  have c: "no_partial_grant (my_app (snd (reconcile_users rw ro sh s)) i)" for i
  proof -
    obtain e s' where r: "reconcile_users rw ro sh s = (e, s')"
      by (cases "reconcile_users rw ro sh s")
    from reconcile_users_any [OF r, of i] assms empty complete show ?thesis using r by auto
  qed
  have d: "no_partial_grant (my_app (delete_all_databags s) i)" for i
    using fold_delete_databag [of "created_users (endpoints s) (my_app s)" s i] assms empty
    by (simp add: delete_all_databags_def)
  have f: "fst (create_database_and_user rw ro sh q s) = None \<longrightarrow>
         complete_grant (my_app (snd (create_database_and_user rw ro sh q s))
           (relation_id (fst q)))"
    using create_bags [of rw ro sh q s s1] r1 by auto
  have g: "fst (create_database_and_user rw ro sh q s) \<noteq> None \<longrightarrow>
         my_app (snd (create_database_and_user rw ro sh q s)) = my_app s"
    by (auto simp: create_database_and_user_end Let_def split: prod.splits sum.splits)
  from a b c d f g show ?thesis by blast
qed

theorem no_partial_grant_preserved_witness:
  "(let sh = \<lparr>shell_username = ''router'',
               create_application_database_and_user =
                 (\<lambda>u d b. if b = 0 then (Inr ''secret'', Suc b) else (Inl (Exn ShellError []), b)),
               shell_delete_user = (\<lambda>u b. (None, b))\<rparr>;
        s = \<lparr>endpoints =
               [\<lparr>relation_id = 1, breaking = False, remote_app_name = ''app1'',
                  remote_app = [''database'' \<mapsto> ''db1'']\<rparr>,
                \<lparr>relation_id = 3, breaking = False, remote_app_name = ''app3'',
                  remote_app = [''database'' \<mapsto> ''db3'']\<rparr>],
             my_app = (\<lambda>i. Map.empty), backend = 0::nat, calls = []\<rparr>;
        t = reconcile_users ''rw'' ''ro'' sh s
    in (\<forall>i. no_partial_grant (my_app s i))
       \<and> fst t = Some (Exn ShellError [])
       \<and> complete_grant (my_app (snd t) 1)
       \<and> my_app (snd t) 3 ''database'' = None
       \<and> (\<forall>i. no_partial_grant (my_app (snd t) i)))"
proof -
  let ?sh = "\<lparr>shell_username = ''router'',
               create_application_database_and_user =
                 (\<lambda>u d b. if b = 0 then (Inr ''secret'', Suc b) else (Inl (Exn ShellError []), b)),
               shell_delete_user = (\<lambda>u b. (None, b))\<rparr> :: nat Shell"
  let ?s = "\<lparr>endpoints =
               [\<lparr>relation_id = 1, breaking = False, remote_app_name = ''app1'',
                  remote_app = [''database'' \<mapsto> ''db1'']\<rparr>,
                \<lparr>relation_id = 3, breaking = False, remote_app_name = ''app3'',
                  remote_app = [''database'' \<mapsto> ''db3'']\<rparr>],
             my_app = (\<lambda>i. Map.empty), backend = 0::nat, calls = []\<rparr>"
  let ?t = "reconcile_users ''rw'' ''ro'' ?sh ?s"
  have h: "\<forall>i. no_partial_grant (my_app ?s i)" by (simp add: no_partial_grant_def)
  have e: "fst ?t = Some (Exn ShellError [])" by code_simp
  have g: "complete_grant (my_app (snd ?t) 1)" by code_simp
  have n: "my_app (snd ?t) 3 ''database'' = None" by code_simp
  have p: "\<forall>i. no_partial_grant (my_app (snd ?t) i)"
    using no_partial_grant_preserved [OF h, of "''rw''" "''ro''" ?sh] by blast
  show ?thesis unfolding Let_def by (intro conjI h e g n p)
qed

text \<open>
  Claim C9 as stated fails: the five keys are written by five assignments, not by a
  single write. After the first assignment of \<open>create_database_and_user\<close> the bag, empty
  before, holds \<open>database\<close> and not \<open>username\<close>: a partial grant.
\<close>

theorem partial_grant_between_assignments:
  "no_partial_grant
     (my_app \<lparr>endpoints =
                 [\<lparr>relation_id = 1, breaking = False, remote_app_name = ''app1'',
                    remote_app = [''database'' \<mapsto> ''db1'']\<rparr>],
               my_app = empty_bags, backend = (), calls = []\<rparr> 1)
   \<and> my_app
        (hd (assign_trace
               \<lparr>relation_id = 1, breaking = False, remote_app_name = ''app1'',
                  remote_app = [''database'' \<mapsto> ''db1'']\<rparr>
               (grant_assignments ''db1'' ''router-1'' ''secret'' ''rw'' ''ro'')
               \<lparr>endpoints =
                  [\<lparr>relation_id = 1, breaking = False, remote_app_name = ''app1'',
                     remote_app = [''database'' \<mapsto> ''db1'']\<rparr>],
                my_app = empty_bags, backend = (), calls = []\<rparr>))
        1 ''database'' = Some ''db1''
   \<and> my_app
        (hd (assign_trace
               \<lparr>relation_id = 1, breaking = False, remote_app_name = ''app1'',
                  remote_app = [''database'' \<mapsto> ''db1'']\<rparr>
               (grant_assignments ''db1'' ''router-1'' ''secret'' ''rw'' ''ro'')
               \<lparr>endpoints =
                  [\<lparr>relation_id = 1, breaking = False, remote_app_name = ''app1'',
                     remote_app = [''database'' \<mapsto> ''db1'']\<rparr>],
                my_app = empty_bags, backend = (), calls = []\<rparr>))
        1 ''username'' = None
   \<and> \<not> no_partial_grant
        (my_app
           (hd (assign_trace
                  \<lparr>relation_id = 1, breaking = False, remote_app_name = ''app1'',
                     remote_app = [''database'' \<mapsto> ''db1'']\<rparr>
                  (grant_assignments ''db1'' ''router-1'' ''secret'' ''rw'' ''ro'')
                  \<lparr>endpoints =
                     [\<lparr>relation_id = 1, breaking = False, remote_app_name = ''app1'',
                        remote_app = [''database'' \<mapsto> ''db1'']\<rparr>],
                   my_app = empty_bags, backend = (), calls = []\<rparr>))
           1)"
  by (simp add: grant_assignments_def setitem_def empty_bags_def no_partial_grant_def
      complete_grant_def)

section \<open>Status of the application relations\<close>

text \<open>
  With no relation the status is the blocked status for the missing relation, and a
  relation whose remote bag has no \<open>database\<close> key gives the waiting status that names
  the remote application.
\<close>

lemma get_status_empty:
  "get_status [] = Inr (Some (Status (BlockedStatus ''Missing relation: database'')))"
  by (simp add: get_status_def exception_reporting_priority_def provides_ENDPOINT_NAME_def)

lemma get_status_waiting:
  "get_status
     [\<lparr>relation_id = 1, breaking = False, remote_app_name = ''app1'', remote_app = Map.empty\<rparr>]
     = Inr (Some (Status (WaitingStatus ''Waiting for app1 app on database endpoint'')))"
  by (simp add: get_status_def exception_reporting_priority_def RelationThatRequestedUser_def
      truthy_def isinstance_def provides_ENDPOINT_NAME_def)

text \<open>
  Claim C3. For a relation that sets \<open>extra-user-roles\<close>, \<open>get_status\<close> returns the
  argument of the exception, which is the bare message string and not a blocked status
  holding that message.
\<close>

theorem get_status_unsupported_role_is_string:
  "get_status
     [\<lparr>relation_id = 1, breaking = False, remote_app_name = ''app1'',
        remote_app = [''database'' \<mapsto> ''db1'', ''extra-user-roles'' \<mapsto> ''admin'']\<rparr>]
     = Inr (Some (Str ''app1 app requested unsupported extra user role on database endpoint''))
   \<and> get_status
     [\<lparr>relation_id = 1, breaking = False, remote_app_name = ''app1'',
        remote_app = [''database'' \<mapsto> ''db1'', ''extra-user-roles'' \<mapsto> ''admin'']\<rparr>]
     \<noteq> Inr (Some (Status (BlockedStatus
           ''app1 app requested unsupported extra user role on database endpoint'')))"
  by (simp add: get_status_def exception_reporting_priority_def RelationThatRequestedUser_def
      truthy_def isinstance_def provides_ENDPOINT_NAME_def)

section \<open>Resolution of the connection to MySQL\<close>

text \<open>
  Claim C7, as the code has it. With a single relation that is breaking, the constructor
  raises \<open>_RelationBreaking\<close>, a subclass of \<open>_MissingRelation\<close>; the module sets
  \<open>relation_breaking\<close> and reports the same blocked status as for a missing relation,
  where \<open>relation_breaking\<close> stays false.
\<close>

theorem resolve_breaking_is_blocked:
  assumes "breaking r"
  shows "fst (ConnectionInformation_init [r] is_leader local)
           = Inl (Exn Requires_RelationBreaking
                    [Status (BlockedStatus ''Missing relation: backend-database'')])
    \<and> fst (resolve [r] is_leader local)
           = Inr \<lparr>connection_info = None, relation_breaking = True,
                  status = Some (Status (BlockedStatus ''Missing relation: backend-database''))\<rparr>
    \<and> fst (ConnectionInformation_init [] is_leader local)
           = Inl (Exn MissingRelation
                    [Status (BlockedStatus ''Missing relation: backend-database'')])
    \<and> fst (resolve [] is_leader local)
           = Inr \<lparr>connection_info = None, relation_breaking = False,
                  status = Some (Status (BlockedStatus ''Missing relation: backend-database''))\<rparr>
    \<and> isinstance (Exn Requires_RelationBreaking as) MissingRelation
    \<and> \<not> isinstance (Exn MissingRelation as) Requires_RelationBreaking"
  using assms
  by (simp add: resolve_def ConnectionInformation_init_def isinstance_def
      requires_ENDPOINT_NAME_def Let_def)

theorem resolve_breaking_is_blocked_witness:
  "breaking \<lparr>relation_id = 0, breaking = True, remote_app_name = ''mysql'',
              remote_app = Map.empty\<rparr>
   \<and> fst (resolve [\<lparr>relation_id = 0, breaking = True, remote_app_name = ''mysql'',
                     remote_app = Map.empty\<rparr>] True empty_bags)
       = Inr \<lparr>connection_info = None, relation_breaking = True,
              status = Some (Status (BlockedStatus ''Missing relation: backend-database''))\<rparr>"
proof -
  have h: "breaking \<lparr>relation_id = 0, breaking = True, remote_app_name = ''mysql'',
              remote_app = Map.empty\<rparr>"
    by simp
  from resolve_breaking_is_blocked [OF h, of True empty_bags] h show ?thesis by blast
qed

text \<open>
  Claim C7 as stated fails: for a single breaking relation the reported status is the
  blocked status, not a waiting status.
\<close>

theorem resolve_breaking_not_waiting:
  "fst (resolve [\<lparr>relation_id = 0, breaking = True, remote_app_name = ''mysql'',
                   remote_app = Map.empty\<rparr>] False empty_bags)
     = Inr \<lparr>connection_info = None, relation_breaking = True,
            status = Some (Status (BlockedStatus ''Missing relation: backend-database''))\<rparr>"
  by (simp add: resolve_def ConnectionInformation_init_def isinstance_def
      requires_ENDPOINT_NAME_def Let_def)

text \<open>
  Claim C8, as the code has it. The request is written to the local bag exactly when the
  caller is the leader and there is exactly one relation, whatever the outcome of the
  constructor; otherwise the local bags are unchanged. Writing twice is the same as
  writing once.
\<close>

theorem leader_write_before_resolution:
  "snd (ConnectionInformation_init relations is_leader local)
     = (if is_leader \<and> length relations = 1 then
          local(relation_id (hd relations) :=
            (local (relation_id (hd relations)))
              (''database'' \<mapsto> ''mysql_innodb_cluster_metadata'',
               ''extra-user-roles'' \<mapsto> ''mysqlrouter''))
        else local)
   \<and> snd (ConnectionInformation_init relations is_leader
            (snd (ConnectionInformation_init relations is_leader local)))
     = snd (ConnectionInformation_init relations is_leader local)"
proof -
  have w: "snd (ConnectionInformation_init rels l loc)
     = (if l \<and> length rels = 1 then
          loc(relation_id (hd rels) :=
            (loc (relation_id (hd rels)))
              (''database'' \<mapsto> ''mysql_innodb_cluster_metadata'',
               ''extra-user-roles'' \<mapsto> ''mysqlrouter''))
        else loc)" for rels l loc
    by (cases rels) (simp_all add: ConnectionInformation_init_def Let_def split: sum.splits)
  show ?thesis by (simp add: w)
qed

theorem leader_write_before_resolution_witness:
  "snd (ConnectionInformation_init
          [\<lparr>relation_id = 0, breaking = False, remote_app_name = ''mysql'',
             remote_app = Map.empty\<rparr>] True empty_bags)
     = empty_bags(0 := [''database'' \<mapsto> ''mysql_innodb_cluster_metadata'',
                        ''extra-user-roles'' \<mapsto> ''mysqlrouter''])
   \<and> snd (ConnectionInformation_init
          [\<lparr>relation_id = 0, breaking = False, remote_app_name = ''mysql'',
             remote_app = Map.empty\<rparr>] False empty_bags)
     = empty_bags"
  using leader_write_before_resolution
    [of "[\<lparr>relation_id = 0, breaking = False, remote_app_name = ''mysql'',
             remote_app = Map.empty\<rparr>]" True empty_bags]
    leader_write_before_resolution
    [of "[\<lparr>relation_id = 0, breaking = False, remote_app_name = ''mysql'',
             remote_app = Map.empty\<rparr>]" False empty_bags]
  by (simp add: empty_bags_def)

text \<open>
  Claim C8 as stated fails: for the leader, with the remote bag still empty, the
  constructor raises \<open>_IncompleteDatabag\<close> and the local bag has been written.
\<close>

theorem leader_write_on_failed_resolution:
  "fst (ConnectionInformation_init
          [\<lparr>relation_id = 0, breaking = False, remote_app_name = ''mysql'',
             remote_app = Map.empty\<rparr>] True empty_bags)
     = Inl (Exn Requires_IncompleteDatabag
              [Status (WaitingStatus ''Waiting for mysql app on backend-database endpoint'')])
   \<and> empty_bags 0 ''database'' = None
   \<and> snd (ConnectionInformation_init
          [\<lparr>relation_id = 0, breaking = False, remote_app_name = ''mysql'',
             remote_app = Map.empty\<rparr>] True empty_bags) 0 ''database''
     = Some ''mysql_innodb_cluster_metadata''"
  by (simp add: ConnectionInformation_init_def read_remote_def getitem_def isinstance_def
      requires_ENDPOINT_NAME_def empty_bags_def Let_def)

lemma read_remote_cases:
  "read_remote bag =
     (case bag ''endpoints'' of
        None \<Rightarrow> Inl (Exn KeyError [Str ''endpoints''])
      | Some v \<Rightarrow>
          if CHR '','' \<in> set v then Inl (Exn AssertionError [])
          else if CHR '':'' \<notin> set v then Inl (Exn IndexError [Str ''list index out of range''])
          else if bag ''username'' = None then Inl (Exn KeyError [Str ''username''])
          else if bag ''password'' = None then Inl (Exn KeyError [Str ''password''])
          else Inr \<lparr>host = hd (str_split CHR '':'' v),
                    port = hd (tl (str_split CHR '':'' v)),
                    username = the (bag ''username''),
                    password = the (bag ''password'')\<rparr>)"
proof (cases "bag ''endpoints''")
  case None
  then show ?thesis by (simp add: read_remote_def getitem_def)
next
  case (Some v)
  show ?thesis
  proof (cases "CHR '','' \<in> set v")
    case True
    then have "length (str_split CHR '','' v) \<noteq> 1"
      using str_split_some [of "CHR '',''" v] by simp
    with Some True show ?thesis by (simp add: read_remote_def getitem_def Let_def)
  next
    case comma: False
    then have one: "str_split CHR '','' v = [v]" by (rule str_split_none)
    show ?thesis
    proof (cases "CHR '':'' \<in> set v")
      case False
      then have "str_split CHR '':'' v = [v]" by (rule str_split_none)
      with Some comma one False show ?thesis
        by (simp add: read_remote_def getitem_def Let_def)
    next
      case True
      then obtain h p rest where sp: "str_split CHR '':'' v = h # p # rest"
        using str_split_some [of "CHR '':''" v]
        by (cases "str_split CHR '':'' v"; cases "tl (str_split CHR '':'' v)") auto
      with Some comma one True show ?thesis
        by (auto simp: read_remote_def getitem_def Let_def split: option.splits)
    qed
  qed
qed

text \<open>
  Claim C10. For a single relation that is not breaking and whose \<open>endpoints\<close> value, when
  present, is one endpoint with a colon, the constructor raises \<open>_IncompleteDatabag\<close> with
  the waiting status exactly when one of \<open>endpoints\<close>, \<open>username\<close>, \<open>password\<close> is
  missing. An \<open>endpoints\<close> value that is present with a comma or without a colon does not
  give the waiting status: the module-level code ends with the uncaught
  \<open>AssertionError\<close> or \<open>IndexError\<close>, whether or not the other keys are there.
\<close>

theorem incomplete_databag_outcome:
  assumes "\<not> breaking r"
  shows "fst (ConnectionInformation_init [r] is_leader local) =
     (case remote_app r ''endpoints'' of
        None \<Rightarrow>
          Inl (Exn Requires_IncompleteDatabag
                 [Status (WaitingStatus
                    (''Waiting for '' @ remote_app_name r @ '' app on backend-database endpoint''))])
      | Some v \<Rightarrow>
          if CHR '','' \<in> set v then Inl (Exn AssertionError [])
          else if CHR '':'' \<notin> set v then Inl (Exn IndexError [Str ''list index out of range''])
          else if remote_app r ''username'' = None \<or> remote_app r ''password'' = None then
            Inl (Exn Requires_IncompleteDatabag
                   [Status (WaitingStatus
                      (''Waiting for '' @ remote_app_name r @ '' app on backend-database endpoint''))])
          else Inr \<lparr>host = hd (str_split CHR '':'' v),
                    port = hd (tl (str_split CHR '':'' v)),
                    username = the (remote_app r ''username''),
                    password = the (remote_app r ''password'')\<rparr>)
    \<and> ((\<forall>v. remote_app r ''endpoints'' = Some v \<longrightarrow> CHR '','' \<notin> set v \<and> CHR '':'' \<in> set v) \<longrightarrow>
         (fst (ConnectionInformation_init [r] is_leader local)
            = Inl (Exn Requires_IncompleteDatabag
                 [Status (WaitingStatus
                    (''Waiting for '' @ remote_app_name r @ '' app on backend-database endpoint''))])
          \<longleftrightarrow> remote_app r ''endpoints'' = None \<or> remote_app r ''username'' = None
                \<or> remote_app r ''password'' = None))
    \<and> (\<forall>v. remote_app r ''endpoints'' = Some v \<and> (CHR '','' \<in> set v \<or> CHR '':'' \<notin> set v) \<longrightarrow>
         fst (resolve [r] is_leader local)
           = Inl (if CHR '','' \<in> set v then Exn AssertionError []
                  else Exn IndexError [Str ''list index out of range'']))"
proof -
  let ?w = "Exn Requires_IncompleteDatabag
                 [Status (WaitingStatus
                    (''Waiting for '' @ remote_app_name r @ '' app on backend-database endpoint''))]"
  have full: "fst (ConnectionInformation_init [r] is_leader local) =
     (case remote_app r ''endpoints'' of
        None \<Rightarrow> Inl ?w
      | Some v \<Rightarrow>
          if CHR '','' \<in> set v then Inl (Exn AssertionError [])
          else if CHR '':'' \<notin> set v then Inl (Exn IndexError [Str ''list index out of range''])
          else if remote_app r ''username'' = None \<or> remote_app r ''password'' = None then
            Inl ?w
          else Inr \<lparr>host = hd (str_split CHR '':'' v),
                    port = hd (tl (str_split CHR '':'' v)),
                    username = the (remote_app r ''username''),
                    password = the (remote_app r ''password'')\<rparr>)"
    using assms
    by (auto simp: ConnectionInformation_init_def read_remote_cases isinstance_def
        requires_ENDPOINT_NAME_def Let_def split: option.splits)
  have iff: "fst (ConnectionInformation_init [r] is_leader local) = Inl ?w
          \<longleftrightarrow> remote_app r ''endpoints'' = None \<or> remote_app r ''username'' = None
                \<or> remote_app r ''password'' = None"
    if "\<forall>v. remote_app r ''endpoints'' = Some v \<longrightarrow> CHR '','' \<notin> set v \<and> CHR '':'' \<in> set v"
    using that by (cases "remote_app r ''endpoints''") (auto simp: full)
  have abort: "fst (resolve [r] is_leader local)
           = Inl (if CHR '','' \<in> set v then Exn AssertionError []
                  else Exn IndexError [Str ''list index out of range''])"
    if "remote_app r ''endpoints'' = Some v" "CHR '','' \<in> set v \<or> CHR '':'' \<notin> set v" for v
  proof -
    have "fst (ConnectionInformation_init [r] is_leader local)
           = Inl (if CHR '','' \<in> set v then Exn AssertionError []
                  else Exn IndexError [Str ''list index out of range''])"
      using that by (auto simp: full)
    then show ?thesis
      by (cases "ConnectionInformation_init [r] is_leader local")
         (auto simp: resolve_def isinstance_def)
  qed
  from full iff abort show ?thesis by blast
qed

theorem incomplete_databag_outcome_witness:
  "\<not> breaking \<lparr>relation_id = 0, breaking = False, remote_app_name = ''mysql'',
              remote_app = [''endpoints'' \<mapsto> ''db.local:3306'', ''username'' \<mapsto> ''admin'']\<rparr>
   \<and> fst (ConnectionInformation_init
          [\<lparr>relation_id = 0, breaking = False, remote_app_name = ''mysql'',
              remote_app = [''endpoints'' \<mapsto> ''db.local:3306'', ''username'' \<mapsto> ''admin'']\<rparr>]
          False empty_bags)
       = Inl (Exn Requires_IncompleteDatabag
                [Status (WaitingStatus ''Waiting for mysql app on backend-database endpoint'')])
   \<and> \<not> breaking \<lparr>relation_id = 0, breaking = False, remote_app_name = ''mysql'',
              remote_app = [''endpoints'' \<mapsto> ''db.local'', ''username'' \<mapsto> ''admin'',
                            ''password'' \<mapsto> ''pw'']\<rparr>
   \<and> fst (resolve
          [\<lparr>relation_id = 0, breaking = False, remote_app_name = ''mysql'',
              remote_app = [''endpoints'' \<mapsto> ''db.local'', ''username'' \<mapsto> ''admin'',
                            ''password'' \<mapsto> ''pw'']\<rparr>]
          False empty_bags)
       = Inl (Exn IndexError [Str ''list index out of range''])
   \<and> \<not> breaking \<lparr>relation_id = 0, breaking = False, remote_app_name = ''mysql'',
              remote_app = [''endpoints'' \<mapsto> ''a:1,b:2'']\<rparr>
   \<and> fst (resolve
          [\<lparr>relation_id = 0, breaking = False, remote_app_name = ''mysql'',
              remote_app = [''endpoints'' \<mapsto> ''a:1,b:2'']\<rparr>]
          False empty_bags)
       = Inl (Exn AssertionError [])"
proof -
  let ?a = "\<lparr>relation_id = 0, breaking = False, remote_app_name = ''mysql'',
              remote_app = [''endpoints'' \<mapsto> ''db.local:3306'', ''username'' \<mapsto> ''admin'']\<rparr>"
  let ?b = "\<lparr>relation_id = 0, breaking = False, remote_app_name = ''mysql'',
              remote_app = [''endpoints'' \<mapsto> ''db.local'', ''username'' \<mapsto> ''admin'',
                            ''password'' \<mapsto> ''pw'']\<rparr>"
  let ?c = "\<lparr>relation_id = 0, breaking = False, remote_app_name = ''mysql'',
              remote_app = [''endpoints'' \<mapsto> ''a:1,b:2'']\<rparr>"
  have h: "\<not> breaking ?a" and k: "\<not> breaking ?b" and m: "\<not> breaking ?c" by simp_all
  have wf: "\<forall>v. remote_app ?a ''endpoints'' = Some v \<longrightarrow> CHR '','' \<notin> set v \<and> CHR '':'' \<in> set v"
    by simp
  have miss: "remote_app ?a ''password'' = None" by simp
  have w: "fst (ConnectionInformation_init [?a] False empty_bags)
       = Inl (Exn Requires_IncompleteDatabag
                [Status (WaitingStatus ''Waiting for mysql app on backend-database endpoint'')])"
    using incomplete_databag_outcome [OF h, of False empty_bags] wf miss by simp
  have eb: "remote_app ?b ''endpoints'' = Some ''db.local''
      \<and> (CHR '','' \<in> set ''db.local'' \<or> CHR '':'' \<notin> set ''db.local'')"
    by simp
  have ie: "fst (resolve [?b] False empty_bags)
      = Inl (Exn IndexError [Str ''list index out of range''])"
    using incomplete_databag_outcome [OF k, of False empty_bags] eb by simp
  have ec: "remote_app ?c ''endpoints'' = Some ''a:1,b:2''
      \<and> (CHR '','' \<in> set ''a:1,b:2'' \<or> CHR '':'' \<notin> set ''a:1,b:2'')"
    by simp
  have ae: "fst (resolve [?c] False empty_bags) = Inl (Exn AssertionError [])"
    using incomplete_databag_outcome [OF m, of False empty_bags] ec by simp
  show ?thesis by (intro conjI h w k ie m ae)
qed

end
